theory Spec2Isabelle
  imports
    Main
    "HOL-Library.Char_ord"
    "HOL-Library.List_Lexorder"
    "HOL-Library.Product_Lexorder"
    "HOL-Library.Sublist"
    "HOL-Library.Multiset"
begin

section \<open>mkenv.py: a shallow embedding\<close>

text \<open>
  The script \<^verbatim>\<open>mkenv.py\<close> resolves a Python version and a list of requirements files
  from its command line, a directory listing and interactive prompts, and then drives
  \<^verbatim>\<open>pyenv\<close> and \<^verbatim>\<open>pip\<close> through \<^verbatim>\<open>subprocess.run\<close>.

  Conventions of the model.
  \<^item> A Python \<^verbatim>\<open>str\<close> is a \<^typ>\<open>string\<close>; a \<^typ>\<open>char\<close> stands for a code point below 256.
    Within that range \<^verbatim>\<open>\d\<close> is exactly the ten ASCII digits, and the white space of
    \<^verbatim>\<open>str.strip\<close> and \<^verbatim>\<open>int\<close> is the set given by \<open>is_space\<close>.
  \<^item> Every exception is a value of type \<open>error\<close>; a function that can raise returns
    \<open>error + 'a\<close>, paired with the state where it has effects.
  \<^item> Effects are recorded in order in a trace of events: lines printed, prompts shown by
    \<^verbatim>\<open>input\<close>, warnings, and external commands run. The lines still to be read from
    standard input are part of the state. Calls of the \<^verbatim>\<open>logging\<close> module do not
    influence control flow and are left out.
\<close>

subsection \<open>Errors, events, state\<close>

datatype error =
    ValueError
  | KeyError
  | IndexError
  | TypeError
  | EOFError
  | OSError
  | RegexError
  | RuntimeError string
  | CalledProcessError int "string list"
  | SystemExit int

datatype event =
    Prompt string
  | Print string
  | Warn string
  | Run "string list"

record state =
  stdin :: "string list"
  trace :: "event list"

definition emit :: "event \<Rightarrow> state \<Rightarrow> state" where
  "emit e st = st\<lparr>trace := trace st @ [e]\<rparr>"

fun is_run :: "event \<Rightarrow> bool" where
  "is_run (Run _) = True"
| "is_run _ = False"

definition runs :: "state \<Rightarrow> event list" where
  "runs st = filter is_run (trace st)"

subsection \<open>Strings\<close>

definition is_digit :: "char \<Rightarrow> bool" where
  "is_digit c = (c \<in> set ''0123456789'')"

definition is_space :: "char \<Rightarrow> bool" where
  \<comment> \<open>\<^verbatim>\<open>str.isspace\<close> on code points below 256: TAB..CR, FS..US, space, NEL, NBSP.\<close>
  "is_space c = (let n = (of_char c :: nat) in
     (9 \<le> n \<and> n \<le> 13) \<or> (28 \<le> n \<and> n \<le> 32) \<or> n = 133 \<or> n = 160)"

definition strip :: "string \<Rightarrow> string" where
  "strip s = rev (dropWhile is_space (rev (dropWhile is_space s)))"

definition lower_char :: "char \<Rightarrow> char" where
  \<comment> \<open>\<^verbatim>\<open>str.lower\<close> on code points below 256: A..Z and the Latin-1 capitals.\<close>
  "lower_char c = (let n = (of_char c :: nat) in
     if (65 \<le> n \<and> n \<le> 90) \<or> (192 \<le> n \<and> n \<le> 222 \<and> n \<noteq> 215) then char_of (n + 32) else c)"

definition lower :: "string \<Rightarrow> string" where
  "lower s = map lower_char s"

fun startswith :: "string \<Rightarrow> string \<Rightarrow> bool" where
  "startswith s [] = True"
| "startswith [] (p # ps) = False"
| "startswith (c # cs) (p # ps) = (c = p \<and> startswith cs ps)"

definition endswith :: "string \<Rightarrow> string \<Rightarrow> bool" where
  "endswith s p = startswith (rev s) (rev p)"

fun split_comma :: "string \<Rightarrow> string list" where
  \<comment> \<open>\<^verbatim>\<open>s.split(",")\<close>\<close>
  "split_comma [] = [[]]"
| "split_comma (c # cs) =
     (if c = CHR '','' then [] # split_comma cs
      else (case split_comma cs of [] \<Rightarrow> [[c]] | t # ts \<Rightarrow> (c # t) # ts))"

definition digit_char :: "nat \<Rightarrow> char" where
  "digit_char d = char_of (48 + d)"

fun str_nat :: "nat \<Rightarrow> string" where
  "str_nat n = (if n < 10 then [digit_char n] else str_nat (n div 10) @ [digit_char (n mod 10)])"

declare str_nat.simps [simp del]

definition str_int :: "int \<Rightarrow> string" where
  \<comment> \<open>\<^verbatim>\<open>str(i)\<close>, also what an f-string writes for an integer\<close>
  "str_int i = (if i < 0 then CHR ''-'' # str_nat (nat (- i)) else str_nat (nat i))"

definition ljust :: "nat \<Rightarrow> string \<Rightarrow> string" where
  "ljust w s = s @ replicate (w - length s) CHR '' ''"

subsection \<open>\<^verbatim>\<open>int(str)\<close>\<close>

text \<open>
  \<^verbatim>\<open>int(s)\<close> in base ten: surrounding white space is dropped, one sign is allowed, and the
  rest must be digits, any two of them separated by at most one underscore. Anything else
  raises \<^verbatim>\<open>ValueError\<close>. (The interpreter's limit on the number of digits is not
  modelled.)
\<close>

fun digitpart :: "string \<Rightarrow> bool" where
  "digitpart [] = False"
| "digitpart [c] = is_digit c"
| "digitpart (c # d # cs) =
     (is_digit c \<and> (if d = CHR ''_'' then digitpart cs else digitpart (d # cs)))"

definition digit_val :: "char \<Rightarrow> nat" where
  "digit_val c = of_char c - 48"

definition digits_value :: "string \<Rightarrow> nat" where
  "digits_value s = foldl (\<lambda>a c. 10 * a + digit_val c) 0 (filter is_digit s)"

definition py_int :: "string \<Rightarrow> error + int" where
  "py_int s =
     (let t = strip s;
          (neg, body) = (case t of
               [] \<Rightarrow> (False, [])
             | c # r \<Rightarrow> if c = CHR ''-'' then (True, r)
                       else if c = CHR ''+'' then (False, r) else (False, t))
      in if digitpart body
         then Inr (if neg then - int (digits_value body) else int (digits_value body))
         else Inl ValueError)"

subsection \<open>The picker\<close>

datatype nargs = NInt int | NStr string

datatype selection = One string | Many "string list" | QuitSignal | PyNone

definition multioption :: "nargs \<Rightarrow> bool" where
  \<comment> \<open>\<^verbatim>\<open>(isinstance(nargs, int) and nargs > 1) or nargs in tuple("+*")\<close>\<close>
  "multioption na = (case na of NInt n \<Rightarrow> n > 1 | NStr s \<Rightarrow> s = ''+'' \<or> s = ''*'')"

definition allows_empty :: "nargs \<Rightarrow> bool" where
  \<comment> \<open>\<^verbatim>\<open>nargs in tuple("?*")\<close>\<close>
  "allows_empty na = (case na of NInt n \<Rightarrow> False | NStr s \<Rightarrow> s = ''?'' \<or> s = ''*'')"

definition opt_dict :: "string list \<Rightarrow> (int \<times> string) list" where
  \<comment> \<open>\<^verbatim>\<open>dict(enumerate(options, 1))\<close>, in insertion order\<close>
  "opt_dict options = zip (map int [1..<Suc (length options)]) options"

definition str_nargs :: "nargs \<Rightarrow> string" where
  "str_nargs na = (case na of NInt n \<Rightarrow> str_int n | NStr s \<Rightarrow> s)"

definition instruction :: "nargs \<Rightarrow> string" where
  "instruction na =
     (if na = NStr ''?'' then ''Type an option or leave empty''
      else if na = NStr ''*'' then ''Type any number of comma-separated options''
      else if na = NStr ''+'' then ''Type one or more comma-separated options''
      else ''Type '' @ str_nargs na @ '' option'' @ (if multioption na then ''s'' else ''''))"

definition menu :: "string list \<Rightarrow> string \<Rightarrow> string \<Rightarrow> nargs \<Rightarrow> bool \<Rightarrow> string" where
  \<comment> \<open>the text \<^verbatim>\<open>s\<close> handed to \<^verbatim>\<open>input\<close>; only built when there is an option\<close>
  "menu options prompt sep na allow_quit =
     (let highest_n = int (length options);
          n_length = length (''  '' @ str_int highest_n @ sep)
      in prompt @ [CHR 0x0A]
         @ concat (map (\<lambda>(idx, option). ljust n_length (''  '' @ str_int idx @ sep) @ option @ [CHR 0x0A])
                       (opt_dict options))
         @ (if allow_quit then ''q: quit'' @ [CHR 0x0A] else '''')
         @ instruction na @ '', and press enter: '')"

fun select_all :: "(int \<times> string) list \<Rightarrow> string \<Rightarrow> string list \<Rightarrow> string list \<Rightarrow> string + string list" where
  \<comment> \<open>the \<^verbatim>\<open>for r in responses\<close> loop: \<open>Inl\<close> is the diagnostic printed before \<^verbatim>\<open>break\<close>,
      \<open>Inr\<close> the list \<^verbatim>\<open>out\<close> when the loop ran to its end. The body reads
      \<^verbatim>\<open>response\<close>, the whole line, not the loop variable \<^verbatim>\<open>r\<close>.\<close>
  "select_all od response [] out = Inr out"
| "select_all od response (r # rs) out =
     (case py_int response of
        Inl _ \<Rightarrow> Inl (''Response '' @ [CHR 0x27] @ response @ [CHR 0x27] @ '' is not a valid command or integer'')
      | Inr n \<Rightarrow>
          (case map_of od n of
             None \<Rightarrow> Inl (response @ '' does not correspond to an option'')
           | Some opt \<Rightarrow> select_all od response rs (out @ [opt])))"

definition responses_of :: "nargs \<Rightarrow> string \<Rightarrow> string list" where
  "responses_of na response =
     (if multioption na then map strip (split_comma response) else [response])"

fun picker_loop ::
  "(int \<times> string) list \<Rightarrow> string \<Rightarrow> nargs \<Rightarrow> bool \<Rightarrow> string list \<Rightarrow> event list
     \<Rightarrow> (error + selection) \<times> state" where
  \<comment> \<open>the \<^verbatim>\<open>while True\<close> loop; each round reads one line, and \<^verbatim>\<open>input\<close> raises
      \<^verbatim>\<open>EOFError\<close> when there is none\<close>
  "picker_loop od s na allow_quit [] tr =
     (Inl EOFError, \<lparr>stdin = [], trace = tr @ [Prompt s]\<rparr>)"
| "picker_loop od s na allow_quit (line # rest) tr =
     (let response = strip line in
      if response = [] then
        (if allows_empty na then (Inr PyNone, \<lparr>stdin = rest, trace = tr @ [Prompt s]\<rparr>)
         else picker_loop od s na allow_quit rest (tr @ [Prompt s, Print ''No option given'']))
      else if allow_quit \<and> ''q'' \<in> set (map lower (responses_of na response)) then
        (Inr QuitSignal, \<lparr>stdin = rest, trace = tr @ [Prompt s]\<rparr>)
      else
        (case select_all od response (responses_of na response) [] of
           Inl msg \<Rightarrow> picker_loop od s na allow_quit rest (tr @ [Prompt s, Print msg])
         | Inr out \<Rightarrow>
             if \<not> multioption na then
               (case out of
                  [] \<Rightarrow> (Inl IndexError, \<lparr>stdin = rest, trace = tr @ [Prompt s]\<rparr>)
                | x # _ \<Rightarrow> (Inr (One x), \<lparr>stdin = rest, trace = tr @ [Prompt s]\<rparr>))
             else (Inr (Many out), \<lparr>stdin = rest, trace = tr @ [Prompt s]\<rparr>)))"

definition picker ::
  "string list \<Rightarrow> string \<Rightarrow> string \<Rightarrow> nargs \<Rightarrow> bool \<Rightarrow> state \<Rightarrow> (error + selection) \<times> state" where
  \<comment> \<open>\<^verbatim>\<open>max(opt_dict)\<close> raises \<^verbatim>\<open>ValueError\<close> on an empty dictionary, before the menu is
      built and before anything is read\<close>
  "picker options prompt sep na allow_quit st =
     (if opt_dict options = [] then (Inl ValueError, st)
      else picker_loop (opt_dict options) (menu options prompt sep na allow_quit) na allow_quit
             (stdin st) (trace st))"

subsection \<open>Version strings and their sort key\<close>

text \<open>
  \<^verbatim>\<open>ver_re\<close> is \<^verbatim>\<open>(?P<major>\d+)\.(?P<minor>\d+)(\.(?P<patch>\d+))?\<close>. At a given position the
  greedy match is determined: a maximal run of digits, a dot, a maximal run of digits, and
  then, where a dot and a digit follow, the dot and a maximal run of digits. Giving back
  digits of a run never helps, because the next character would then be a digit and not
  the dot the pattern asks for. \<open>match_at\<close> returns the groups and the text after the match.
\<close>

type_synonym vmatch = "string \<times> string \<times> string option"

definition match_at :: "string \<Rightarrow> (vmatch \<times> string) option" where
  "match_at s =
     (let major = takeWhile is_digit s; r1 = dropWhile is_digit s in
      if major = [] then None
      else (case r1 of
              [] \<Rightarrow> None
            | c1 # r2 \<Rightarrow>
                if c1 \<noteq> CHR ''.'' then None
                else (let minor = takeWhile is_digit r2; r3 = dropWhile is_digit r2 in
                      if minor = [] then None
                      else (case r3 of
                              [] \<Rightarrow> Some ((major, minor, None), r3)
                            | c2 # r4 \<Rightarrow>
                                if c2 = CHR ''.'' \<and> takeWhile is_digit r4 \<noteq> []
                                then Some ((major, minor, Some (takeWhile is_digit r4)),
                                           dropWhile is_digit r4)
                                else Some ((major, minor, None), r3)))))"

lemma match_at_shorter: "match_at s = Some (m, rest) \<Longrightarrow> length rest < length s"
proof -
  have d: "length (dropWhile is_digit u) \<le> length u" for u
    by (rule length_dropWhile_le)
  assume a: "match_at s = Some (m, rest)"
  show ?thesis
  proof (cases "dropWhile is_digit s")
    case Nil
    with a show ?thesis
      by (simp add: match_at_def Let_def del: dropWhile_eq_Nil_conv split: if_splits)
  next
    case c1: (Cons c1 r2)
    have "length (dropWhile is_digit s) = Suc (length r2)"
      by (simp add: c1)
    then have s: "length r2 < length s"
      using d [of s] by linarith
    have s2: "length (dropWhile is_digit r2) < length s"
      using d [of r2] s by linarith
    show ?thesis
    proof (cases "dropWhile is_digit r2")
      case Nil
      with a c1 s show ?thesis
        by (auto simp: match_at_def Let_def simp del: dropWhile_eq_Nil_conv split: if_splits)
    next
      case c2: (Cons c2 r4)
      have "length (dropWhile is_digit r2) = Suc (length r4)"
        by (simp add: c2)
      then have s4: "length (dropWhile is_digit r4) < length s"
        using d [of r4] s2 by linarith
      have "rest = dropWhile is_digit r2 \<or> rest = dropWhile is_digit r4"
        using a c1 c2
        by (auto simp: match_at_def Let_def simp del: dropWhile_eq_Nil_conv split: if_splits)
      then show ?thesis
        using s2 s4 by blast
    qed
  qed
qed

function finditer :: "string \<Rightarrow> vmatch list" where
  \<comment> \<open>\<^verbatim>\<open>ver_re.finditer(s)\<close>: the matches from left to right, none overlapping\<close>
  "finditer [] = []"
| "finditer (c # cs) =
     (case match_at (c # cs) of
        None \<Rightarrow> finditer cs
      | Some (m, rest) \<Rightarrow> m # finditer rest)"
  by pat_completeness auto
termination
  by (relation "measure length") (auto dest: match_at_shorter)

function sub_ver :: "string \<Rightarrow> string" where
  \<comment> \<open>\<^verbatim>\<open>ver_re.sub("", s)\<close>: the string with every match removed\<close>
  "sub_ver [] = []"
| "sub_ver (c # cs) =
     (case match_at (c # cs) of
        None \<Rightarrow> c # sub_ver cs
      | Some (m, rest) \<Rightarrow> sub_ver rest)"
  by pat_completeness auto
termination
  by (relation "measure length") (auto dest: match_at_shorter)

datatype key_elem = KInt int | KStr string | KTup "int \<times> int \<times> int"

definition version_of :: "vmatch \<Rightarrow> int \<times> int \<times> int" where
  \<comment> \<open>the groups as integers; \<^verbatim>\<open>patch\<close> is \<^verbatim>\<open>-1\<close> when the group did not take part\<close>
  "version_of m =
     (case m of (major, minor, patch) \<Rightarrow>
        (int (digits_value major), int (digits_value minor),
         (case patch of None \<Rightarrow> - 1 | Some p \<Rightarrow> int (digits_value p))))"

definition version_tuple :: "vmatch \<Rightarrow> key_elem" where
  \<comment> \<open>\<^verbatim>\<open>(-int(major), -int(minor), -int(patch))\<close>\<close>
  "version_tuple m = (case version_of m of (a, b, c) \<Rightarrow> KTup (- a, - b, - c))"

definition sort_key' :: "string \<Rightarrow> error + key_elem list" where
  \<comment> \<open>\<^verbatim>\<open>s[0]\<close> raises \<^verbatim>\<open>IndexError\<close> on the empty string\<close>
  "sort_key' s =
     (case s of
        [] \<Rightarrow> Inl IndexError
      | c # _ \<Rightarrow>
          Inr ((if is_digit c then [KInt 0] else [KInt 1, KStr (sub_ver s)])
               @ map version_tuple (finditer s)))"

text \<open>
  Python compares tuples from the left: the first position where the elements are not
  equal decides, by \<^verbatim>\<open><\<close> on those two elements, and a proper prefix is smaller.
  \<^verbatim>\<open><\<close> between an integer, a string and a tuple of different kinds raises \<^verbatim>\<open>TypeError\<close>;
  strings compare by code point, tuples of integers lexicographically.
\<close>

fun elem_lt :: "key_elem \<Rightarrow> key_elem \<Rightarrow> error + bool" where
  "elem_lt (KInt a) (KInt b) = Inr (a < b)"
| "elem_lt (KStr a) (KStr b) = Inr (a < b)"
| "elem_lt (KTup a) (KTup b) = Inr (a < b)"
| "elem_lt _ _ = Inl TypeError"

fun tuple_lt :: "key_elem list \<Rightarrow> key_elem list \<Rightarrow> error + bool" where
  "tuple_lt [] [] = Inr False"
| "tuple_lt [] (y # ys) = Inr True"
| "tuple_lt (x # xs) [] = Inr False"
| "tuple_lt (x # xs) (y # ys) = (if x = y then tuple_lt xs ys else elem_lt x y)"

text \<open>
  \<^verbatim>\<open>sorted(names, key=sort_key)\<close> computes the key of every element first and then sorts
  by \<^verbatim>\<open><\<close> on the keys. The sort is stable, and that fixes its result; it is modelled by
  insertion from the right, which puts an element before the first one whose key is not
  smaller.
\<close>

fun decorate :: "string list \<Rightarrow> error + (key_elem list \<times> string) list" where
  "decorate [] = Inr []"
| "decorate (s # ss) =
     (case sort_key' s of
        Inl e \<Rightarrow> Inl e
      | Inr k \<Rightarrow> (case decorate ss of Inl e \<Rightarrow> Inl e | Inr ks \<Rightarrow> Inr ((k, s) # ks)))"

fun insert_by_key ::
  "key_elem list \<times> string \<Rightarrow> (key_elem list \<times> string) list
     \<Rightarrow> error + (key_elem list \<times> string) list" where
  "insert_by_key x [] = Inr [x]"
| "insert_by_key x (y # ys) =
     (case tuple_lt (fst y) (fst x) of
        Inl e \<Rightarrow> Inl e
      | Inr b \<Rightarrow>
          if b then (case insert_by_key x ys of Inl e \<Rightarrow> Inl e | Inr zs \<Rightarrow> Inr (y # zs))
          else Inr (x # y # ys))"

fun sort_decorated :: "(key_elem list \<times> string) list \<Rightarrow> error + (key_elem list \<times> string) list" where
  "sort_decorated [] = Inr []"
| "sort_decorated (x # xs) =
     (case sort_decorated xs of Inl e \<Rightarrow> Inl e | Inr ys \<Rightarrow> insert_by_key x ys)"

definition sorted_versions :: "string list \<Rightarrow> error + string list" where
  "sorted_versions names =
     (case decorate names of
        Inl e \<Rightarrow> Inl e
      | Inr ks \<Rightarrow> (case sort_decorated ks of Inl e \<Rightarrow> Inl e | Inr out \<Rightarrow> Inr (map snd out)))"

subsection \<open>The world outside the script\<close>

text \<open>
  What the script reads from its surroundings is collected in one record: the value of
  \<^verbatim>\<open>PYENV_ROOT\<close> and the working directory (both captured when the module is loaded; the
  model starts after that succeeded), the entries of \<^verbatim>\<open>PYENV_ROOT/versions\<close> in listing
  order with their \<^verbatim>\<open>is_symlink\<close> flag (\<open>None\<close> when the directory cannot be listed), the
  tree below the working directory, the regular-expression compiler of module \<^verbatim>\<open>re\<close>
  (for a pattern, \<open>None\<close> when it does not compile, else the predicate deciding whether
  \<^verbatim>\<open>search\<close> finds a match), and the outcome of every external command, which may depend
  on the commands run before it. A command is taken to start; what it returns is its exit
  status and its captured output.
\<close>

datatype dir = Dir (subdirs: "(string \<times> dir) list") (files: "string list")

record completed =
  returncode :: int
  stdout :: string
  stderr :: string

record world =
  pyenv_root :: string
  cwd :: string
  versions_dir :: "(string \<times> bool) list option"
  tree :: dir
  re_compile :: "string \<Rightarrow> (string \<Rightarrow> bool) option"
  run :: "string list list \<Rightarrow> string list \<Rightarrow> completed"

definition joinpath :: "string \<Rightarrow> string \<Rightarrow> string" where
  \<comment> \<open>\<^verbatim>\<open>os.path.join(a, b)\<close>\<close>
  "joinpath a b =
     (if startswith b ''/'' then b
      else if a = [] \<or> endswith a ''/'' then a @ b
      else a @ ''/'' @ b)"

text \<open>
  \<^verbatim>\<open>pathlib\<close> normalises a path when it parses it: the root is \<^verbatim>\<open>//\<close> for exactly two
  leading slashes and \<^verbatim>\<open>/\<close> for any other number of them, empty components and the
  component \<^verbatim>\<open>.\<close> are dropped (\<^verbatim>\<open>..\<close> is kept), and the path without root and components is
  written \<^verbatim>\<open>.\<close>. A segment that is absolute replaces what stands before it, as in
  \<^verbatim>\<open>os.path.join\<close>; so \<^verbatim>\<open>str(a / b / c)\<close> is \<open>pure_path\<close> of the joined segments.
\<close>

fun split_slash :: "string \<Rightarrow> string list" where
  "split_slash [] = [[]]"
| "split_slash (c # cs) =
     (if c = CHR ''/'' then [] # split_slash cs
      else (case split_slash cs of [] \<Rightarrow> [[c]] | t # ts \<Rightarrow> (c # t) # ts))"

fun join_slash :: "string list \<Rightarrow> string" where
  "join_slash [] = []"
| "join_slash [p] = p"
| "join_slash (p # q # ps) = p @ ''/'' @ join_slash (q # ps)"

definition posix_root :: "string \<Rightarrow> string" where
  "posix_root s =
     (if startswith s ''//'' \<and> \<not> startswith s ''///'' then ''//''
      else if startswith s ''/'' then ''/''
      else [])"

definition pure_path :: "string \<Rightarrow> string" where
  \<comment> \<open>\<^verbatim>\<open>str(PurePosixPath(s))\<close>\<close>
  "pure_path s =
     (let parts = filter (\<lambda>p. p \<noteq> [] \<and> p \<noteq> ''.'') (split_slash s)
      in if posix_root s = [] \<and> parts = [] then ''.''
         else posix_root s @ join_slash parts)"

fun argv_of :: "event \<Rightarrow> string list list" where
  "argv_of (Run argv) = [argv]"
| "argv_of _ = []"

definition history :: "state \<Rightarrow> string list list" where
  "history st = concat (map argv_of (trace st))"

definition sp_run :: "world \<Rightarrow> string list \<Rightarrow> state \<Rightarrow> completed \<times> state" where
  \<comment> \<open>\<^verbatim>\<open>subprocess.run(argv, capture_output=True, text=True)\<close>\<close>
  "sp_run w argv st = (run w (history st) argv, emit (Run argv) st)"

subsection \<open>Listing and filtering the installed versions\<close>

definition get_pyenv_versions :: "world \<Rightarrow> error + string list" where
  "get_pyenv_versions w =
     (case versions_dir w of
        None \<Rightarrow> Inl OSError
      | Some entries \<Rightarrow> sorted_versions (map fst (filter (\<lambda>v. \<not> snd v) entries)))"

fun yield_matching :: "(string \<Rightarrow> bool) \<Rightarrow> string list \<Rightarrow> string list" where
  \<comment> \<open>\<^verbatim>\<open>for v in versions: if <test>(v): yield v\<close>\<close>
  "yield_matching test [] = []"
| "yield_matching test (v # vs) =
     (if test v then v # yield_matching test vs else yield_matching test vs)"

definition filter_versions :: "world \<Rightarrow> string \<Rightarrow> error + string list" where
  \<comment> \<open>the generator, run to its end as \<^verbatim>\<open>list(filter_versions(...))\<close> does\<close>
  "filter_versions w filter_str =
     (case get_pyenv_versions w of
        Inl e \<Rightarrow> Inl e
      | Inr versions \<Rightarrow>
          if startswith filter_str ''/'' then
            (case re_compile w (tl filter_str) of
               None \<Rightarrow> Inl RegexError
             | Some search \<Rightarrow> Inr (yield_matching search versions))
          else Inr (yield_matching (\<lambda>v. startswith v filter_str) versions))"

subsection \<open>Picking a version and requirements files\<close>

definition pick_versions :: "string list \<Rightarrow> state \<Rightarrow> (error + selection) \<times> state" where
  \<comment> \<open>\<^verbatim>\<open>sys.exit(0)\<close> raises \<^verbatim>\<open>SystemExit(0)\<close>\<close>
  "pick_versions versions st =
     (case picker versions ''Pick python version: '' ''. '' (NInt 1) True st of
        (Inl e, st') \<Rightarrow> (Inl e, st')
      | (Inr out, st') \<Rightarrow>
          if out = QuitSignal then (Inl (SystemExit 0), st') else (Inr out, st'))"

definition is_requirements :: "string \<Rightarrow> bool" where
  "is_requirements fname = (startswith fname ''requirements'' \<and> endswith fname ''.txt'')"

text \<open>
  \<^verbatim>\<open>os.walk\<close> visits a directory before its subdirectories, and the subdirectories in
  the order of \<^verbatim>\<open>dnames\<close> as the loop body leaves it. A directory reached through a
  symbolic link is listed but not entered, so it contributes nothing and is not part of
  \<open>dir\<close>.
\<close>

fun collect_requirements :: "string \<Rightarrow> dir \<Rightarrow> string list" where
  \<comment> \<open>the list \<^verbatim>\<open>reqs\<close> built by the loop over \<^verbatim>\<open>os.walk(CWD)\<close>\<close>
  "collect_requirements root (Dir dnames fnames) =
     map (joinpath root) (filter is_requirements (sort fnames))
     @ concat (map (\<lambda>(d, sub). collect_requirements (joinpath root d) sub)
                   (filter (\<lambda>(d, sub). \<not> startswith d ''.'') dnames))"

definition pick_requirements :: "world \<Rightarrow> state \<Rightarrow> (error + selection) \<times> state" where
  "pick_requirements w st =
     picker (collect_requirements (cwd w) (tree w)) ''Select which requirements to install: ''
       ''. '' (NStr ''*'') False st"

subsection \<open>Creating the environment\<close>

definition is_linebreak :: "char \<Rightarrow> bool" where
  \<comment> \<open>the line boundaries of \<^verbatim>\<open>str.splitlines\<close> below 256\<close>
  "is_linebreak c = ((of_char c :: nat) \<in> {10, 11, 12, 13, 28, 29, 30, 133})"

fun splitlines :: "string \<Rightarrow> string list" where
  \<comment> \<open>\<^verbatim>\<open>text.splitlines(True)\<close>: the lines with their line ends\<close>
  "splitlines [] = []"
| "splitlines [c] = [[c]]"
| "splitlines (c # d # cs) =
     (if c = CHR 0x0D \<and> d = CHR 0x0A then [c, d] # splitlines cs
      else if is_linebreak c then [c] # splitlines (d # cs)
      else (case splitlines (d # cs) of [] \<Rightarrow> [[c]] | l # ls \<Rightarrow> (c # l) # ls))"

definition indent :: "string \<Rightarrow> string \<Rightarrow> string" where
  \<comment> \<open>\<^verbatim>\<open>textwrap.indent(text, prefix)\<close>: the prefix before every line that is not blank\<close>
  "indent text pre =
     concat (map (\<lambda>line. if strip line \<noteq> [] then pre @ line else line) (splitlines text))"

definition creation_failed :: "int \<Rightarrow> string \<Rightarrow> string" where
  "creation_failed code err =
     ''Could not create pyenv environment (status code '' @ str_int code @ '')'' @ [CHR 0x0A]
     @ indent err ''  ''"

definition install_failed :: "int \<Rightarrow> string \<Rightarrow> string \<Rightarrow> string" where
  "install_failed code req err =
     ''Could not install requirements from (status code '' @ str_int code @ ''): '' @ req
     @ [CHR 0x0A] @ indent err ''  ''"

definition install_cmd :: "string \<Rightarrow> string \<Rightarrow> string list" where
  "install_cmd pip_path req = [pip_path, ''install'', ''-r'', req]"

fun install_all :: "world \<Rightarrow> string \<Rightarrow> string option list \<Rightarrow> state \<Rightarrow> (error + unit) \<times> state" where
  \<comment> \<open>\<^verbatim>\<open>for req in requirements_files\<close>. An element \<^verbatim>\<open>None\<close> (a bare \<^verbatim>\<open>-r\<close> among others)
      is printed as \<^verbatim>\<open>None\<close> and then refused by \<^verbatim>\<open>subprocess.run\<close> with \<^verbatim>\<open>TypeError\<close>.
      \<^verbatim>\<open>warnings.warn\<close> is recorded as a \<open>Warn\<close> event.\<close>
  "install_all w pip_path [] st = (Inr (), st)"
| "install_all w pip_path (None # reqs) st =
     (Inl TypeError, emit (Print ''Installing requirements from None...'') st)"
| "install_all w pip_path (Some req # reqs) st =
     (let st1 = emit (Print (''Installing requirements from '' @ req @ ''...'')) st;
          (install, st2) = sp_run w (install_cmd pip_path req) st1;
          st3 = (if returncode install \<noteq> 0
                 then emit (Warn (install_failed (returncode install) req (stderr install))) st2
                 else st2)
      in install_all w pip_path reqs st3)"

definition pyenv_path :: "world \<Rightarrow> string" where
  \<comment> \<open>\<^verbatim>\<open>str(PYENV_ROOT / "bin" / "pyenv")\<close>\<close>
  "pyenv_path w = pure_path (joinpath (joinpath (pyenv_root w) ''bin'') ''pyenv'')"

definition pip_path :: "world \<Rightarrow> string \<Rightarrow> string" where
  \<comment> \<open>\<^verbatim>\<open>str(PYENV_ROOT / "versions" / name / "bin" / "pip")\<close>\<close>
  "pip_path w nm =
     pure_path (joinpath (joinpath (joinpath (joinpath (pyenv_root w) ''versions'') nm) ''bin'')
                  ''pip'')"

definition create_environment ::
  "world \<Rightarrow> string \<Rightarrow> string \<Rightarrow> string option list option \<Rightarrow> state \<Rightarrow> (error + unit) \<times> state" where
  \<comment> \<open>\<^verbatim>\<open>check=True\<close> turns a nonzero exit status into \<^verbatim>\<open>CalledProcessError\<close>\<close>
  "create_environment w version nm requirements_files st =
     (let st1 = emit (Print (''Creating environment called '' @ [CHR 0x27] @ nm @ [CHR 0x27]
                             @ '' for python version '' @ [CHR 0x27] @ version @ [CHR 0x27] @ ''...'')) st;
          (creation, st2) = sp_run w [pyenv_path w, ''virtualenv'', version, nm] st1
      in if returncode creation \<noteq> 0 then
           (Inl (RuntimeError (creation_failed (returncode creation) (stderr creation))), st2)
         else
          (let st3 = emit (Print ''Setting as local version...'') st2;
               (localise, st4) = sp_run w [pyenv_path w, ''local'', nm] st3
           in if returncode localise \<noteq> 0 then
                (Inl (CalledProcessError (returncode localise) [pyenv_path w, ''local'', nm]), st4)
              else
               (let st5 = emit (Print ''Updating pip...'') st4;
                    (update, st6) = sp_run w [pip_path w nm, ''install'', ''-U'', ''pip''] st5
                in if returncode update \<noteq> 0 then
                     (Inl (CalledProcessError (returncode update)
                             [pip_path w nm, ''install'', ''-U'', ''pip'']), st6)
                   else
                    (case (case requirements_files of
                             None \<Rightarrow> (Inr (), st6)
                           | Some reqs \<Rightarrow> install_all w (pip_path w nm) reqs st6) of
                       (Inl e, st7) \<Rightarrow> (Inl e, st7)
                     | (Inr u, st7) \<Rightarrow> (Inr (), emit (Print ''Done!'') st7)))))"

subsection \<open>Resolving the arguments; the main program\<close>

record namespace =
  ns_py_version :: string
  ns_pick :: bool
  ns_name :: string
  ns_requirements :: "string option list option"

record arguments =
  py_version :: string
  name :: string
  requirements :: "string option list option"

definition first_elem :: "'a list \<Rightarrow> error + 'a" where
  \<comment> \<open>\<^verbatim>\<open>xs[0]\<close>\<close>
  "first_elem xs = (case xs of [] \<Rightarrow> Inl IndexError | x # _ \<Rightarrow> Inr x)"

definition list_of_selection :: "selection \<Rightarrow> error + string list" where
  \<comment> \<open>\<^verbatim>\<open>list(x)\<close>: \<^verbatim>\<open>None\<close> and the quit object are not iterable, a string gives its
      characters\<close>
  "list_of_selection x =
     (case x of
        Many xs \<Rightarrow> Inr xs
      | One s \<Rightarrow> Inr (map (\<lambda>c. [c]) s)
      | QuitSignal \<Rightarrow> Inl TypeError
      | PyNone \<Rightarrow> Inl TypeError)"

definition from_parsed :: "world \<Rightarrow> namespace \<Rightarrow> state \<Rightarrow> (error + arguments) \<times> state" where
  \<comment> \<open>With \<^verbatim>\<open>nargs=1\<close> the picker returns one option or the quit object (lemma
      \<open>picker_single_shape\<close>); the branch for any other value is never taken.\<close>
  "from_parsed w ns st =
     (case filter_versions w (ns_py_version ns) of
        Inl e \<Rightarrow> (Inl e, st)
      | Inr matching_versions \<Rightarrow>
          (case (if ns_pick ns then
                   (case pick_versions matching_versions st of
                      (Inl e, st1) \<Rightarrow> (Inl e, st1)
                    | (Inr (One v), st1) \<Rightarrow> (Inr v, st1)
                    | (Inr _, st1) \<Rightarrow> (Inl TypeError, st1))
                 else (first_elem matching_versions, st)) of
             (Inl e, st1) \<Rightarrow> (Inl e, st1)
           | (Inr version, st1) \<Rightarrow>
               (case (if ns_requirements ns = Some [None] then
                        (case pick_requirements w st1 of
                           (Inl e, st2) \<Rightarrow> (Inl e, st2)
                         | (Inr sel, st2) \<Rightarrow>
                             (case list_of_selection sel of
                                Inl e \<Rightarrow> (Inl e, st2)
                              | Inr xs \<Rightarrow> (Inr (Some (map Some xs)), st2)))
                      else (Inr (ns_requirements ns), st1)) of
                  (Inl e, st2) \<Rightarrow> (Inl e, st2)
                | (Inr reqs, st2) \<Rightarrow>
                    (Inr \<lparr>py_version = version, name = ns_name ns, requirements = reqs\<rparr>, st2))))"

definition main :: "world \<Rightarrow> namespace \<Rightarrow> state \<Rightarrow> (error + unit) \<times> state" where
  \<comment> \<open>after \<^verbatim>\<open>parse_args\<close>; an error that leaves \<open>main\<close> ends the process, \<open>SystemExit 0\<close>
      with exit status 0\<close>
  "main w ns st =
     (case from_parsed w ns st of
        (Inl e, st1) \<Rightarrow> (Inl e, st1)
      | (Inr args, st1) \<Rightarrow>
          create_environment w (py_version args) (name args) (requirements args) st1)"

subsection \<open>Notions used in the statements\<close>

text \<open>
  The group of a version string (whether its first character is a digit), the version of
  its first match, and the order the keys induce. \<open>enc\<close> maps a string to a value of a
  linear order that compares as the Python keys do (lemma \<open>sort_key_enc\<close>); it serves the
  proofs only.
\<close>

definition starts_numeric :: "string \<Rightarrow> bool" where
  "starts_numeric s = (case s of [] \<Rightarrow> False | c # _ \<Rightarrow> is_digit c)"

definition first_version :: "string \<Rightarrow> (int \<times> int \<times> int) option" where
  "first_version s = (case finditer s of [] \<Rightarrow> None | m # _ \<Rightarrow> Some (version_of m))"

definition neg_version :: "vmatch \<Rightarrow> int \<times> int \<times> int" where
  "neg_version m = (case version_of m of (a, b, c) \<Rightarrow> (- a, - b, - c))"

definition enc :: "string \<Rightarrow> nat \<times> string \<times> (int \<times> int \<times> int) list" where
  "enc s = (if starts_numeric s then (0, [], map neg_version (finditer s))
            else (1, sub_ver s, map neg_version (finditer s)))"

text \<open>
  \<open>req_file root d p\<close>: \<open>p\<close> is the path of a requirements file in the tree \<open>d\<close> rooted at
  \<open>root\<close>, reached without entering a directory whose name starts with a dot.
\<close>

inductive req_file :: "string \<Rightarrow> dir \<Rightarrow> string \<Rightarrow> bool" where
  here: "f \<in> set fnames \<Longrightarrow> is_requirements f \<Longrightarrow> req_file root (Dir dnames fnames) (joinpath root f)"
| below: "(d, sub) \<in> set dnames \<Longrightarrow> \<not> startswith d ''.'' \<Longrightarrow> req_file (joinpath root d) sub p
          \<Longrightarrow> req_file root (Dir dnames fnames) p"

fun warn_of :: "event \<Rightarrow> string list" where
  "warn_of (Warn msg) = [msg]"
| "warn_of _ = []"

definition warnings :: "state \<Rightarrow> string list" where
  "warnings st = concat (map warn_of (trace st))"

text \<open>
  \<open>visited root d\<close>: the directories that the walk enters, each with its path and its
  file names, in the order of the walk. \<open>install_warnings w pip h reqs\<close>: the warnings due
  for the requirements files \<open>reqs\<close>, installed one after the other from the command
  history \<open>h\<close>: one for each file whose install returns a nonzero status, in order.
\<close>

fun visited :: "string \<Rightarrow> dir \<Rightarrow> (string \<times> string list) list" where
  "visited root (Dir dnames fnames) =
     (root, fnames)
     # concat (map (\<lambda>(d, sub). visited (joinpath root d) sub)
                   (filter (\<lambda>(d, sub). \<not> startswith d ''.'') dnames))"

definition install_warnings :: "world \<Rightarrow> string \<Rightarrow> string list list \<Rightarrow> string list \<Rightarrow> string list" where
  "install_warnings w pip h reqs =
     concat (map (\<lambda>i. let c = run w (h @ map (install_cmd pip) (take i reqs))
                                  (install_cmd pip (reqs ! i))
                       in if returncode c \<noteq> 0
                          then [install_failed (returncode c) (reqs ! i) (stderr c)] else [])
                 [0..<length reqs])"

text \<open>
  A small world for the concrete instances below: two installed versions and a link, a
  working directory whose only requirements file is inside \<^verbatim>\<open>.git\<close>, a pattern
  compiler that knows one pattern, and external commands that fail exactly when they
  name the version \<^verbatim>\<open>2.7.18\<close> or the file \<^verbatim>\<open>bad.txt\<close>.
\<close>

definition example_world :: world where
  "example_world =
     \<lparr>pyenv_root = ''/p'', cwd = ''/w'',
      versions_dir = Some [(''3.9.1'', False), (''3.10.0'', False), (''env'', True)],
      tree = Dir [(''.git'', Dir [] [''requirements.txt'']), (''docs'', Dir [] [''index.rst''])]
                 [''README''],
      re_compile = (\<lambda>p. if p = ''^3[.]1'' then Some (\<lambda>v. startswith v ''3.1'') else None),
      run = (\<lambda>h argv. if ''2.7.18'' \<in> set argv \<or> ''bad.txt'' \<in> set argv
                       then \<lparr>returncode = 1, stdout = [], stderr = ''boom''\<rparr>
                       else \<lparr>returncode = 0, stdout = ''ok'', stderr = []\<rparr>)\<rparr>"

section \<open>Properties\<close>

subsection \<open>VersionSorter\<close>

lemma version_tuple_neg: "version_tuple m = KTup (neg_version m)"
  by (simp add: version_tuple_def neg_version_def split: prod.splits)

lemma tuple_lt_KTup: "tuple_lt (map KTup xs) (map KTup ys) = Inr (xs < ys)"
proof (induction xs arbitrary: ys)
  case Nil
  then show ?case by (cases ys) simp_all
next
  case (Cons x xs)
  then show ?case by (cases ys) auto
qed

lemma sort_key_enc:
  assumes "sort_key' s = Inr ks" and "sort_key' t = Inr kt"
  shows "tuple_lt ks kt = Inr (enc s < enc t)"
proof -
  obtain c cs d ds where s: "s = c # cs" and t: "t = d # ds"
    using assms by (cases s; cases t) (auto simp: sort_key'_def)
  have m: "map version_tuple xs = map KTup (map neg_version xs)" for xs
    by (simp add: version_tuple_neg)
  show ?thesis
    using assms unfolding s t
    by (auto simp: sort_key'_def enc_def starts_numeric_def m tuple_lt_KTup
             simp del: map_map)
qed

lemma decorate_ok:
  "\<forall>s\<in>set xs. s \<noteq> [] \<Longrightarrow>
   \<exists>ks. decorate xs = Inr ks \<and> map snd ks = xs \<and> (\<forall>p\<in>set ks. sort_key' (snd p) = Inr (fst p))"
proof (induction xs)
  case Nil
  then show ?case by simp
next
  case (Cons x xs)
  then obtain ks where ks: "decorate xs = Inr ks" "map snd ks = xs"
    "\<forall>p\<in>set ks. sort_key' (snd p) = Inr (fst p)" by auto
  from Cons.prems obtain k where k: "sort_key' x = Inr k"
    by (cases x) (auto simp: sort_key'_def)
  show ?case using ks k by simp
qed

lemma insert_by_key_insort:
  assumes "sort_key' (snd x) = Inr (fst x)" and "\<forall>p\<in>set ys. sort_key' (snd p) = Inr (fst p)"
  shows "insert_by_key x ys = Inr (insort_key (\<lambda>p. enc (snd p)) x ys)"
  using assms(2)
proof (induction ys)
  case Nil
  then show ?case by simp
next
  case (Cons y ys)
  have "tuple_lt (fst y) (fst x) = Inr (enc (snd y) < enc (snd x))"
    using Cons.prems assms(1) by (intro sort_key_enc) auto
  then show ?case using Cons by (auto simp: not_less)
qed

lemma sort_decorated_sort:
  assumes "\<forall>p\<in>set ks. sort_key' (snd p) = Inr (fst p)"
  shows "sort_decorated ks = Inr (sort_key (\<lambda>p. enc (snd p)) ks)"
  using assms
proof (induction ks)
  case Nil
  then show ?case by simp
next
  case (Cons k ks)
  have "\<forall>p\<in>set (sort_key (\<lambda>p. enc (snd p)) ks). sort_key' (snd p) = Inr (fst p)"
    using Cons.prems by simp
  then show ?case using Cons by (simp add: insert_by_key_insort)
qed

lemma map_snd_insort:
  "map snd (insort_key (\<lambda>p. f (snd p)) x ys) = insort_key f (snd x) (map snd ys)"
  by (induction ys) auto

lemma map_snd_sort: "map snd (sort_key (\<lambda>p. f (snd p)) ks) = sort_key f (map snd ks)"
  by (induction ks) (auto simp: map_snd_insort)

lemma sorted_versions_sort:
  assumes "\<forall>s\<in>set names. s \<noteq> []"
  shows "sorted_versions names = Inr (sort_key enc names)"
proof -
  obtain ks where ks: "decorate names = Inr ks" "map snd ks = names"
    "\<forall>p\<in>set ks. sort_key' (snd p) = Inr (fst p)"
    using decorate_ok [OF assms] by auto
  show ?thesis
    using ks by (simp add: sorted_versions_def sort_decorated_sort map_snd_sort)
qed


lemma neg_version_less:
  "neg_version m < neg_version m' \<longleftrightarrow> version_of m' < version_of m"
  by (auto simp: neg_version_def split: prod.splits)


lemma group_before: "starts_numeric s \<Longrightarrow> \<not> starts_numeric t \<Longrightarrow> enc s < enc t"
  by (simp add: enc_def)

lemma version_before:
  assumes "starts_numeric s = starts_numeric t" and "sub_ver s = sub_ver t"
    and "first_version s = Some a" and "first_version t = Some b" and "b < a"
  shows "enc s < enc t"
proof -
  obtain m ms where s: "finditer s = m # ms" and a: "a = version_of m"
    using assms(3) by (auto simp: first_version_def split: list.splits)
  obtain n ns where t: "finditer t = n # ns" and b: "b = version_of n"
    using assms(4) by (auto simp: first_version_def split: list.splits)
  have "neg_version m < neg_version n"
    using assms(5) a b by (simp add: neg_version_less)
  then show ?thesis
    using assms(1,2) s t by (simp add: enc_def)
qed

lemma unversioned_before:
  assumes "starts_numeric s = starts_numeric t" and "sub_ver s = sub_ver t"
    and "finditer s = []" and "finditer t \<noteq> []"
  shows "enc s < enc t"
proof -
  obtain n ns where t: "finditer t = n # ns"
    using assms(4) by (cases "finditer t") auto
  show ?thesis
    using assms(1,2,3) t by (simp add: enc_def)
qed

lemma sort_position:
  assumes "i < length (sort_key enc names)" and "j < length (sort_key enc names)"
    and "enc (sort_key enc names ! i) < enc (sort_key enc names ! j)"
  shows "i < j"
proof (rule ccontr)
  assume "\<not> i < j"
  then have ji: "j \<le> i" by simp
  have "sorted (map enc (sort_key enc names))"
    by (rule sorted_sort_key)
  then have "map enc (sort_key enc names) ! j \<le> map enc (sort_key enc names) ! i"
    using ji assms(1) by (intro sorted_nth_mono) simp_all
  then show False
    using assms ji by simp
qed

lemma sorted_versions_nonempty:
  assumes "sorted_versions names = Inr out"
  shows "\<forall>s\<in>set names. s \<noteq> []"
proof -
  have "decorate xs = Inr ks \<Longrightarrow> \<forall>s\<in>set xs. s \<noteq> []" for xs ks
    by (induction xs arbitrary: ks) (auto simp: sort_key'_def split: sum.splits list.splits)
  then show ?thesis
    using assms by (auto simp: sorted_versions_def split: sum.splits)
qed

lemma sub_ver_unversioned: "finditer s = [] \<Longrightarrow> sub_ver s = s"
proof (induction s rule: finditer.induct)
  case 1
  then show ?case by simp
next
  case (2 c cs)
  then show ?case by (cases "match_at (c # cs)") auto
qed

text \<open>
  C4. For a list of non-empty version strings, \<^verbatim>\<open>sorted(names, key=sort_key)\<close> returns a
  permutation of the list in which every string whose first character is a digit stands
  before every string whose first character is not; and within each of these two groups,
  of two strings with the same base (the string with the matches of the version pattern
  removed), the one whose first match has the greater (major, minor, patch), a missing
  patch counting as -1, stands first.
\<close>

theorem sorted_versions_order:
  assumes "[] \<notin> set names"
  shows "\<exists>out. sorted_versions names = Inr out \<and> mset out = mset names
     \<and> (\<forall>i j. i < length out \<and> j < length out
            \<and> starts_numeric (out ! i) \<and> \<not> starts_numeric (out ! j) \<longrightarrow> i < j)
     \<and> (\<forall>i j a b. i < length out \<and> j < length out
            \<and> starts_numeric (out ! i) = starts_numeric (out ! j)
            \<and> sub_ver (out ! i) = sub_ver (out ! j)
            \<and> first_version (out ! i) = Some a \<and> first_version (out ! j) = Some b
            \<and> b < a \<longrightarrow> i < j)"
proof -
  let ?out = "sort_key enc names"
  have "\<forall>s\<in>set names. s \<noteq> []"
    using assms by auto
  then have 1: "sorted_versions names = Inr ?out"
    by (rule sorted_versions_sort)
  have 2: "mset ?out = mset names"
    by simp
  have 3: "i < j" if "i < length ?out" "j < length ?out"
    "starts_numeric (?out ! i)" "\<not> starts_numeric (?out ! j)" for i j
    using that by (intro sort_position [of i names j] group_before)
  have 4: "i < j" if "i < length ?out" "j < length ?out"
    "starts_numeric (?out ! i) = starts_numeric (?out ! j)"
    "sub_ver (?out ! i) = sub_ver (?out ! j)"
    "first_version (?out ! i) = Some a" "first_version (?out ! j) = Some b" "b < a" for i j a b
    using that by (intro sort_position [of i names j] version_before)
  show ?thesis
    using 1 2 3 4 by blast
qed

theorem sorted_versions_order_witness:
  "[] \<notin> set [''3.9'', ''pypy3.9-7.3.9'', ''3.9.1'', ''3.10'']
   \<and> sorted_versions [''3.9'', ''pypy3.9-7.3.9'', ''3.9.1'', ''3.10'']
       = Inr [''3.10'', ''3.9.1'', ''3.9'', ''pypy3.9-7.3.9'']
   \<and> starts_numeric ''3.9'' \<and> \<not> starts_numeric ''pypy3.9-7.3.9''
   \<and> starts_numeric ''3.10'' = starts_numeric ''3.9.1'' \<and> sub_ver ''3.10'' = sub_ver ''3.9.1''
   \<and> first_version ''3.10'' = Some (3, 10, - 1) \<and> first_version ''3.9.1'' = Some (3, 9, 1)
   \<and> ((3, 9, 1) :: int \<times> int \<times> int) < (3, 10, - 1)"
proof -
  have h: "[] \<notin> set [''3.9'', ''pypy3.9-7.3.9'', ''3.9.1'', ''3.10'']"
    by simp
  have e: "sorted_versions [''3.9'', ''pypy3.9-7.3.9'', ''3.9.1'', ''3.10'']
       = Inr [''3.10'', ''3.9.1'', ''3.9'', ''pypy3.9-7.3.9'']"
    by code_simp
  have g: "starts_numeric ''3.9''" "\<not> starts_numeric ''pypy3.9-7.3.9''"
    "starts_numeric ''3.10'' = starts_numeric ''3.9.1''" "sub_ver ''3.10'' = sub_ver ''3.9.1''"
    by code_simp+
  have v: "first_version ''3.10'' = Some (3, 10, - 1)" "first_version ''3.9.1'' = Some (3, 9, 1)"
    by code_simp+
  have l: "((3, 9, 1) :: int \<times> int \<times> int) < (3, 10, - 1)"
    by simp
  show ?thesis
    using h e g v l sorted_versions_order [OF h] by simp
qed

lemma sort_key_example:
  "sorted_versions [''3.10'', ''3.9.1'', ''3.9''] = Inr [''3.10'', ''3.9.1'', ''3.9'']"
  "sorted_versions [''3.10'', ''3.9'', ''3.9.1''] = Inr [''3.10'', ''3.9.1'', ''3.9'']"
  "sorted_versions [''3.9.1'', ''3.10'', ''3.9''] = Inr [''3.10'', ''3.9.1'', ''3.9'']"
  "sorted_versions [''3.9.1'', ''3.9'', ''3.10''] = Inr [''3.10'', ''3.9.1'', ''3.9'']"
  "sorted_versions [''3.9'', ''3.10'', ''3.9.1''] = Inr [''3.10'', ''3.9.1'', ''3.9'']"
  "sorted_versions [''3.9'', ''3.9.1'', ''3.10''] = Inr [''3.10'', ''3.9.1'', ''3.9'']"
  by code_simp+

text \<open>
  C5, as amended. For a non-empty version string in which the version pattern finds no
  match, \<open>sort_key\<close> yields a key of only the group marker and, when the string does not
  start with a digit, the base string, which is the string itself; and such a string sorts
  before every string of the same group and base that does contain a version. (The key is
  a proper prefix of theirs, and Python orders a prefix first.)
\<close>

theorem unversioned_sorts_first:
  assumes "finditer s = []" and "s \<noteq> []"
  shows "sort_key' s = Inr (if starts_numeric s then [KInt 0] else [KInt 1, KStr s])
     \<and> (\<forall>names out i j. sorted_versions names = Inr out
            \<and> i < length out \<and> j < length out \<and> out ! i = s
            \<and> starts_numeric (out ! j) = starts_numeric s
            \<and> sub_ver (out ! j) = sub_ver s
            \<and> finditer (out ! j) \<noteq> [] \<longrightarrow> i < j)"
proof -
  have "sort_key' s = Inr ((if starts_numeric s then [KInt 0] else [KInt 1, KStr (sub_ver s)])
                           @ map version_tuple (finditer s))"
    using assms(2)
    by (cases s) (simp_all add: sort_key'_def starts_numeric_def del: sub_ver.simps finditer.simps)
  then have k: "sort_key' s = Inr (if starts_numeric s then [KInt 0] else [KInt 1, KStr s])"
    using assms(1) by (simp add: sub_ver_unversioned)
  have p: "i < j" if "sorted_versions names = Inr out" "i < length out" "j < length out"
    "out ! i = s" "starts_numeric (out ! j) = starts_numeric s" "sub_ver (out ! j) = sub_ver s"
    "finditer (out ! j) \<noteq> []" for names out i j
  proof -
    have o: "out = sort_key enc names"
      using that(1) sorted_versions_sort [OF sorted_versions_nonempty [OF that(1)]] by simp
    have "enc (out ! i) < enc (out ! j)"
      using that assms(1) by (intro unversioned_before) simp_all
    then show ?thesis
      using that(2,3) unfolding o by (rule sort_position [rotated 2])
  qed
  show ?thesis
    using k p by blast
qed

theorem unversioned_sorts_first_witness:
  "finditer ''pypy'' = [] \<and> ''pypy'' \<noteq> []
   \<and> sort_key' ''pypy'' = Inr [KInt 1, KStr ''pypy'']
   \<and> sorted_versions [''pypy3.9'', ''pypy''] = Inr [''pypy'', ''pypy3.9'']
   \<and> starts_numeric ''pypy3.9'' = starts_numeric ''pypy'' \<and> sub_ver ''pypy3.9'' = sub_ver ''pypy''
   \<and> finditer ''pypy3.9'' \<noteq> []"
proof -
  have f: "finditer ''pypy'' = []" by code_simp
  have n: "''pypy'' \<noteq> []" by simp
  have s: "\<not> starts_numeric ''pypy''" by code_simp
  have e: "sorted_versions [''pypy3.9'', ''pypy''] = Inr [''pypy'', ''pypy3.9'']" by code_simp
  have g: "starts_numeric ''pypy3.9'' = starts_numeric ''pypy''"
    "sub_ver ''pypy3.9'' = sub_ver ''pypy''" "finditer ''pypy3.9'' \<noteq> []"
    by code_simp+
  show ?thesis
    using f n e s g unversioned_sorts_first [OF f n] by simp
qed

text \<open>
  The claim as first stated, that such a string sorts after them, fails: \<^verbatim>\<open>pypy\<close> has no
  match, shares group and base with \<^verbatim>\<open>pypy3.9\<close>, and is sorted before it.
\<close>

theorem unversioned_sorts_after_counterexample:
  "finditer ''pypy'' = [] \<and> finditer ''pypy3.9'' \<noteq> []
   \<and> starts_numeric ''pypy'' = starts_numeric ''pypy3.9''
   \<and> sub_ver ''pypy'' = sub_ver ''pypy3.9''
   \<and> sorted_versions [''pypy3.9'', ''pypy''] = Inr [''pypy'', ''pypy3.9'']"
  by code_simp

subsection \<open>InteractivePicker\<close>

lemma opt_dict_Nil [simp]: "opt_dict options = [] \<longleftrightarrow> options = []"
  by (cases options) (simp_all add: opt_dict_def upt_rec)

lemma picker_loop_runs:
  "filter is_run (trace (snd (picker_loop od s na aq inp tr))) = filter is_run tr"
proof (induction inp arbitrary: tr)
  case Nil
  then show ?case by simp
next
  case (Cons line rest)
  show ?case
    using Cons.IH by (auto simp: Let_def split: sum.splits list.splits)
qed

lemma picker_runs: "runs (snd (picker options prompt sep na aq st)) = runs st"
  by (simp add: picker_def runs_def picker_loop_runs)

lemma picker_loop_single_shape:
  "\<not> multioption na \<Longrightarrow> \<not> allows_empty na \<Longrightarrow> picker_loop od s na aq inp tr = (Inr sel, st')
   \<Longrightarrow> (\<exists>v. sel = One v) \<or> sel = QuitSignal"
proof (induction inp arbitrary: tr)
  case Nil
  then show ?case by simp
next
  case (Cons line rest)
  from Cons.prems(3) Cons.prems(1,2) Cons.IH [OF Cons.prems(1,2)] show ?case
    by (auto simp: Let_def split: if_splits sum.splits list.splits)
qed

lemma picker_single_shape:
  assumes "picker options prompt sep (NInt 1) aq st = (Inr sel, st')"
  shows "(\<exists>v. sel = One v) \<or> sel = QuitSignal"
proof -
  have "\<not> multioption (NInt 1)" "\<not> allows_empty (NInt 1)"
    by (simp_all add: multioption_def allows_empty_def)
  then show ?thesis
    using assms picker_loop_single_shape
    by (fastforce simp: picker_def split: if_splits)
qed

lemma lower_char_q:
  assumes "lower_char c = CHR ''q''"
  shows "c = CHR ''q'' \<or> c = CHR ''Q''"
proof -
  define n where "n = (of_char c :: nat)"
  have c: "c = char_of n"
    by (simp add: n_def)
  show ?thesis
  proof (cases "(65 \<le> n \<and> n \<le> 90) \<or> (192 \<le> n \<and> n \<le> 222 \<and> n \<noteq> 215)")
    case True
    then have "char_of (n + 32) = CHR ''q''"
      using assms by (simp add: lower_char_def n_def)
    then have "of_char (char_of (n + 32)) = (of_char CHR ''q'' :: nat)"
      by simp
    then have "(n + 32) mod 256 = 113"
      by (simp only: of_char_of) simp
    then have "n = 81"
      using True by auto
    then have "(of_char c :: nat) = of_char CHR ''Q''"
      by (simp add: n_def)
    then have "c = CHR ''Q''"
      by (simp only: of_char_eq_iff)
    then show ?thesis
      by simp
  next
    case False
    then have "lower_char c = c"
      unfolding lower_char_def Let_def n_def by (rule if_not_P)
    then show ?thesis
      using assms by simp
  qed
qed

lemma lower_q: "lower r = ''q'' \<longleftrightarrow> r = ''q'' \<or> r = ''Q''"
proof
  assume "lower r = ''q''"
  then obtain c where r: "r = [c]" and c: "lower_char c = CHR ''q''"
    by (cases r) (auto simp: lower_def)
  then show "r = ''q'' \<or> r = ''Q''"
    using lower_char_q by auto
next
  assume "r = ''q'' \<or> r = ''Q''"
  moreover have "lower ''q'' = ''q''" "lower ''Q'' = ''q''"
    by code_simp+
  ultimately show "lower r = ''q''" by auto
qed

text \<open>
  The tokens of a response, told without the code: in multi-option mode a token is a piece
  of the line between two commas, or between a comma and an end of the line, taken without
  the white space around it; otherwise the line without the white space around it is the
  one token. The lemmas below show that the picker's own splitting finds every such token,
  although it strips the line before it splits.
\<close>

lemma in_dropWhile: "c \<in> set xs \<Longrightarrow> \<not> P c \<Longrightarrow> c \<in> set (dropWhile P xs)"
  by (induction xs) auto

lemma in_strip: "c \<in> set s \<Longrightarrow> \<not> is_space c \<Longrightarrow> c \<in> set (strip s)"
  by (simp add: strip_def in_dropWhile)

lemma split_comma_nonempty: "split_comma s \<noteq> []"
  by (cases s) (auto split: list.splits)

lemma split_comma_plain: "CHR '','' \<notin> set t \<Longrightarrow> split_comma t = [t]"
  by (induction t) auto

lemma split_comma_append:
  "split_comma (a @ CHR '','' # b) = split_comma a @ split_comma b"
proof (induction a)
  case Nil
  then show ?case by simp
next
  case (Cons c a)
  obtain t ts where t: "split_comma a = t # ts"
    using split_comma_nonempty [of a] by (cases "split_comma a") auto
  show ?case
    using Cons t by simp
qed

lemma split_comma_token:
  assumes "CHR '','' \<notin> set tok"
    and "pre = [] \<or> last pre = CHR '',''" and "post = [] \<or> hd post = CHR '',''"
  shows "tok \<in> set (split_comma (pre @ tok @ post))"
proof -
  have r: "tok \<in> set (split_comma (tok @ post))"
  proof (cases post)
    case Nil
    then show ?thesis using assms(1) by (simp add: split_comma_plain)
  next
    case (Cons c q)
    then have "post = CHR '','' # q" using assms(3) by simp
    then show ?thesis
      using assms(1) by (simp add: split_comma_append split_comma_plain)
  qed
  show ?thesis
  proof (cases "pre = []")
    case True
    then show ?thesis using r by simp
  next
    case False
    then have "butlast pre @ [last pre] = pre"
      by (rule append_butlast_last_id)
    then have "pre @ tok @ post = butlast pre @ CHR '','' # (tok @ post)"
      using assms(2) False by (cases pre rule: rev_cases) simp_all
    then have "split_comma (pre @ tok @ post) = split_comma (butlast pre) @ split_comma (tok @ post)"
      by (simp only: split_comma_append)
    then show ?thesis
      using r by simp
  qed
qed

lemma strip_spaces:
  assumes "\<forall>c\<in>set b. is_space c"
  shows "strip b = []"
  using assms by (auto simp: strip_def dest: set_dropWhileD)

lemma strip_lead: "\<forall>c\<in>set a. is_space c \<Longrightarrow> strip (a @ t) = strip t"
  by (simp add: strip_def dropWhile_append2)

lemma strip_trail:
  assumes "\<forall>c\<in>set b. is_space c"
  shows "strip (t @ b) = strip t"
proof (cases "\<forall>c\<in>set t. is_space c")
  case True
  then have "strip (t @ b) = []" "strip t = []"
    using assms by (auto intro!: strip_spaces)
  then show ?thesis by simp
next
  case False
  then obtain x where x: "x \<in> set t" "\<not> is_space x" by auto
  then have 1: "dropWhile is_space (t @ b) = dropWhile is_space t @ b"
    by (simp add: dropWhile_append1)
  have 2: "dropWhile is_space (rev b @ rev (dropWhile is_space t))
           = dropWhile is_space (rev (dropWhile is_space t))"
    by (rule dropWhile_append2) (use assms in auto)
  show ?thesis
    by (simp add: strip_def 1 2)
qed

lemma split_comma_lead:
  assumes "CHR '','' \<notin> set a"
  shows "\<exists>t ts. split_comma s = t # ts \<and> split_comma (a @ s) = (a @ t) # ts"
  using assms
proof (induction a)
  case Nil
  then show ?case
    using split_comma_nonempty [of s] by (cases "split_comma s") auto
next
  case (Cons c a)
  then obtain t ts where "split_comma s = t # ts" "split_comma (a @ s) = (a @ t) # ts"
    by auto
  then show ?case
    using Cons.prems by auto
qed

lemma split_comma_trail:
  assumes "CHR '','' \<notin> set b"
  shows "\<exists>ts t. split_comma s = ts @ [t] \<and> split_comma (s @ b) = ts @ [t @ b]"
proof (induction s)
  case Nil
  show ?case
    using assms by (simp add: split_comma_plain)
next
  case (Cons c s)
  then obtain ts t where i: "split_comma s = ts @ [t]" "split_comma (s @ b) = ts @ [t @ b]"
    by auto
  show ?case
  proof (cases "c = CHR '',''")
    case True
    have "split_comma (c # s) = ([] # ts) @ [t]" "split_comma ((c # s) @ b) = ([] # ts) @ [t @ b]"
      using True i by simp_all
    then show ?thesis by blast
  next
    case False
    show ?thesis
    proof (cases ts)
      case Nil
      have "split_comma (c # s) = [] @ [c # t]" "split_comma ((c # s) @ b) = [] @ [(c # t) @ b]"
        using False i Nil by simp_all
      then show ?thesis by blast
    next
      case (Cons u us)
      have "split_comma (c # s) = ((c # u) # us) @ [t]"
        "split_comma ((c # s) @ b) = ((c # u) # us) @ [t @ b]"
        using False i Cons by simp_all
      then show ?thesis by blast
    qed
  qed
qed

lemma not_space_comma: "\<not> is_space CHR '',''"
  by (simp add: is_space_def)

lemma map_strip_lead:
  assumes "\<forall>c\<in>set a. is_space c"
  shows "map strip (split_comma (a @ s)) = map strip (split_comma s)"
proof -
  have "CHR '','' \<notin> set a"
    using assms not_space_comma by auto
  then obtain t ts where "split_comma s = t # ts" "split_comma (a @ s) = (a @ t) # ts"
    using split_comma_lead by blast
  then show ?thesis
    using assms by (simp add: strip_lead)
qed

lemma map_strip_trail:
  assumes "\<forall>c\<in>set b. is_space c"
  shows "map strip (split_comma (s @ b)) = map strip (split_comma s)"
proof -
  have "CHR '','' \<notin> set b"
    using assms not_space_comma by auto
  then obtain ts t where "split_comma s = ts @ [t]" "split_comma (s @ b) = ts @ [t @ b]"
    using split_comma_trail by blast
  then show ?thesis
    using assms by (simp add: strip_trail)
qed

lemma strip_decompose:
  "\<exists>a b. s = a @ strip s @ b \<and> (\<forall>c\<in>set a. is_space c) \<and> (\<forall>c\<in>set b. is_space c)"
proof -
  let ?u = "dropWhile is_space s"
  have 1: "s = takeWhile is_space s @ ?u"
    by simp
  have "strip s @ rev (takeWhile is_space (rev ?u)) = ?u"
    by (simp only: strip_def rev_append [symmetric] takeWhile_dropWhile_id rev_rev_ident)
  then have 2: "?u = strip s @ rev (takeWhile is_space (rev ?u))"
    by simp
  have 3: "\<forall>c\<in>set (takeWhile is_space s). is_space c"
    by (auto dest: set_takeWhileD)
  have 4: "\<forall>c\<in>set (rev (takeWhile is_space (rev ?u))). is_space c"
    by (auto dest: set_takeWhileD)
  have "s = takeWhile is_space s @ strip s @ rev (takeWhile is_space (rev ?u))"
    using 1 2 by metis
  then show ?thesis
    using 3 4 by blast
qed

lemma tokens_strip: "map strip (split_comma (strip s)) = map strip (split_comma s)"
proof -
  obtain a b where s: "s = a @ strip s @ b" and a: "\<forall>c\<in>set a. is_space c"
    and b: "\<forall>c\<in>set b. is_space c"
    using strip_decompose by blast
  have "map strip (split_comma s) = map strip (split_comma (a @ strip s @ b))"
    using s by simp
  also have "\<dots> = map strip (split_comma (strip s @ b))"
    using a by (rule map_strip_lead)
  also have "\<dots> = map strip (split_comma (strip s))"
    using b by (rule map_strip_trail)
  finally show ?thesis by simp
qed

lemma set_strip: "set (strip s) \<subseteq> set s"
  unfolding strip_def by (auto dest!: set_dropWhileD)

lemma quit_token_visible:
  assumes "lower (strip tok) = ''q''" and "set tok \<subseteq> set line"
  shows "strip line \<noteq> []"
proof -
  have "strip tok = ''q'' \<or> strip tok = ''Q''"
    using assms(1) by (simp add: lower_q)
  then obtain c where c: "c \<in> set (strip tok)" "c = CHR ''q'' \<or> c = CHR ''Q''"
    by auto
  then have "c \<in> set line"
    using set_strip [of tok] assms(2) by auto
  moreover have "\<not> is_space c"
    using c(2) by (auto simp: is_space_def)
  ultimately have "c \<in> set (strip line)"
    by (rule in_strip)
  then show ?thesis by auto
qed

lemma multi_quit_token:
  assumes "multioption na" and "line = pre @ tok @ post" and "CHR '','' \<notin> set tok"
    and "pre = [] \<or> last pre = CHR '',''" and "post = [] \<or> hd post = CHR '',''"
    and "lower (strip tok) = ''q''"
  shows "strip line \<noteq> [] \<and> ''q'' \<in> set (map lower (responses_of na (strip line)))"
proof -
  have "tok \<in> set (split_comma line)"
    unfolding assms(2) using assms(3,4,5) by (rule split_comma_token)
  then have "strip tok \<in> set (map strip (split_comma (strip line)))"
    by (simp add: tokens_strip)
  then have "lower (strip tok) \<in> set (map lower (responses_of na (strip line)))"
    using assms(1) by (auto simp: responses_of_def)
  moreover have "strip line \<noteq> []"
    using assms(6) by (rule quit_token_visible) (auto simp: assms(2))
  ultimately show ?thesis
    using assms(6) by simp
qed

lemma single_quit_token:
  assumes "\<not> multioption na" and "lower (strip line) = ''q''"
  shows "strip line \<noteq> [] \<and> ''q'' \<in> set (map lower (responses_of na (strip line)))"
  using assms by (auto simp: responses_of_def lower_def)

text \<open>
  C7. With quit allowed, a round of the picker whose response has a token that is \<^verbatim>\<open>q\<close> in
  lower case (that is \<^verbatim>\<open>q\<close> or \<^verbatim>\<open>Q\<close>, lemma \<open>lower_q\<close>) returns the quit signal, whatever the
  other tokens are: this holds for every round of the loop, and so for a picker that has
  an option to show and reads such a response first. When the version picker returns the
  quit signal, the program ends with \<^verbatim>\<open>SystemExit(0)\<close> and has run no external command.
\<close>

theorem picker_quit:
  "(multioption na \<and> line = pre @ tok @ post \<and> CHR '','' \<notin> set tok
      \<and> (pre = [] \<or> last pre = CHR '','') \<and> (post = [] \<or> hd post = CHR '','')
      \<and> lower (strip tok) = ''q''
      \<longrightarrow> picker_loop od s na True (line # rest) tr
            = (Inr QuitSignal, \<lparr>stdin = rest, trace = tr @ [Prompt s]\<rparr>))
   \<and> (\<not> multioption na \<and> lower (strip line) = ''q''
      \<longrightarrow> picker_loop od s na True (line # rest) tr
            = (Inr QuitSignal, \<lparr>stdin = rest, trace = tr @ [Prompt s]\<rparr>))
   \<and> (options \<noteq> [] \<and> stdin st = line # rest
        \<and> (multioption na \<and> line = pre @ tok @ post \<and> CHR '','' \<notin> set tok
              \<and> (pre = [] \<or> last pre = CHR '','') \<and> (post = [] \<or> hd post = CHR '','')
              \<and> lower (strip tok) = ''q''
            \<or> \<not> multioption na \<and> lower (strip line) = ''q'')
      \<longrightarrow> picker options prompt sep na True st
            = (Inr QuitSignal,
               \<lparr>stdin = rest, trace = trace st @ [Prompt (menu options prompt sep na True)]\<rparr>))
   \<and> (ns_pick ns \<and> filter_versions w (ns_py_version ns) = Inr versions
        \<and> picker versions ''Pick python version: '' ''. '' (NInt 1) True st = (Inr QuitSignal, st')
      \<longrightarrow> main w ns st = (Inl (SystemExit 0), st') \<and> runs st' = runs st)"
proof (intro conjI impI)
  assume "multioption na \<and> line = pre @ tok @ post \<and> CHR '','' \<notin> set tok
      \<and> (pre = [] \<or> last pre = CHR '','') \<and> (post = [] \<or> hd post = CHR '','')
      \<and> lower (strip tok) = ''q''"
  then have "strip line \<noteq> [] \<and> ''q'' \<in> set (map lower (responses_of na (strip line)))"
    by (intro multi_quit_token [of na line pre tok post]) simp_all
  then show "picker_loop od s na True (line # rest) tr
            = (Inr QuitSignal, \<lparr>stdin = rest, trace = tr @ [Prompt s]\<rparr>)"
    by (simp add: Let_def)
next
  assume "\<not> multioption na \<and> lower (strip line) = ''q''"
  then have "strip line \<noteq> [] \<and> ''q'' \<in> set (map lower (responses_of na (strip line)))"
    by (intro single_quit_token) simp_all
  then show "picker_loop od s na True (line # rest) tr
            = (Inr QuitSignal, \<lparr>stdin = rest, trace = tr @ [Prompt s]\<rparr>)"
    by (simp add: Let_def)
next
  assume a: "options \<noteq> [] \<and> stdin st = line # rest
        \<and> (multioption na \<and> line = pre @ tok @ post \<and> CHR '','' \<notin> set tok
              \<and> (pre = [] \<or> last pre = CHR '','') \<and> (post = [] \<or> hd post = CHR '','')
              \<and> lower (strip tok) = ''q''
            \<or> \<not> multioption na \<and> lower (strip line) = ''q'')"
  then have "strip line \<noteq> [] \<and> ''q'' \<in> set (map lower (responses_of na (strip line)))"
    using multi_quit_token [of na line pre tok post] single_quit_token [of na line] by blast
  then show "picker options prompt sep na True st
            = (Inr QuitSignal,
               \<lparr>stdin = rest, trace = trace st @ [Prompt (menu options prompt sep na True)]\<rparr>)"
    using a by (simp add: picker_def Let_def)
next
  assume a: "ns_pick ns \<and> filter_versions w (ns_py_version ns) = Inr versions
        \<and> picker versions ''Pick python version: '' ''. '' (NInt 1) True st = (Inr QuitSignal, st')"
  then show "main w ns st = (Inl (SystemExit 0), st')"
    by (simp add: main_def from_parsed_def pick_versions_def)
  show "runs st' = runs st"
    using a picker_runs [of versions "''Pick python version: ''" "''. ''" "NInt 1" True st] by simp
qed

theorem picker_quit_witness:
  "multioption (NStr ''+'') \<and> ''2 , Q'' = ''2 ,'' @ '' Q'' @ [] \<and> CHR '','' \<notin> set '' Q''
   \<and> last ''2 ,'' = CHR '','' \<and> lower (strip '' Q'') = ''q''
   \<and> picker [''a'', ''b''] ''Select an option:'' ''. '' (NStr ''+'') True
        \<lparr>stdin = [''2 , Q'', ''1''], trace = []\<rparr>
      = (Inr QuitSignal,
         \<lparr>stdin = [''1''],
          trace = [Prompt (menu [''a'', ''b''] ''Select an option:'' ''. '' (NStr ''+'') True)]\<rparr>)
   \<and> \<not> multioption (NInt 1) \<and> lower (strip '' Q '') = ''q''
   \<and> filter_versions example_world ''3'' = Inr [''3.10.0'', ''3.9.1'']
   \<and> picker [''3.10.0'', ''3.9.1''] ''Pick python version: '' ''. '' (NInt 1) True
        \<lparr>stdin = ['' Q '', ''1''], trace = []\<rparr>
      = (Inr QuitSignal,
         \<lparr>stdin = [''1''],
          trace = [Prompt (menu [''3.10.0'', ''3.9.1''] ''Pick python version: '' ''. '' (NInt 1) True)]\<rparr>)
   \<and> main example_world
        \<lparr>ns_py_version = ''3'', ns_pick = True, ns_name = ''env'', ns_requirements = None\<rparr>
        \<lparr>stdin = ['' Q '', ''1''], trace = []\<rparr>
      = (Inl (SystemExit 0),
         \<lparr>stdin = [''1''],
          trace = [Prompt (menu [''3.10.0'', ''3.9.1''] ''Pick python version: '' ''. '' (NInt 1) True)]\<rparr>)
   \<and> runs \<lparr>stdin = [''1''],
          trace = [Prompt (menu [''3.10.0'', ''3.9.1''] ''Pick python version: '' ''. '' (NInt 1) True)]\<rparr>
      = []"
proof -
  let ?st = "\<lparr>stdin = ['' Q '', ''1''], trace = []\<rparr>"
  let ?st' = "\<lparr>stdin = [''1''],
          trace = [Prompt (menu [''3.10.0'', ''3.9.1''] ''Pick python version: '' ''. '' (NInt 1) True)]\<rparr>"
  let ?ns = "\<lparr>ns_py_version = ''3'', ns_pick = True, ns_name = ''env'', ns_requirements = None\<rparr>"
  let ?mt = "\<lparr>stdin = [''2 , Q'', ''1''], trace = []\<rparr>"
  have m1: "multioption (NStr ''+'')"
    by (simp add: multioption_def)
  have m2: "''2 , Q'' = ''2 ,'' @ '' Q'' @ []"
    by simp
  have m3: "CHR '','' \<notin> set '' Q''"
    by simp
  have m4: "last ''2 ,'' = CHR '',''"
    by simp
  have m5: "lower (strip '' Q'') = ''q''"
    by code_simp
  have s1: "\<not> multioption (NInt 1)"
    by (simp add: multioption_def)
  have s2: "lower (strip '' Q '') = ''q''"
    by code_simp
  have h3: "filter_versions example_world ''3'' = Inr [''3.10.0'', ''3.9.1'']"
    by code_simp
  note qm = picker_quit [where line = "''2 , Q''" and rest = "[''1'']" and na = "NStr ''+''"
      and pre = "''2 ,''" and tok = "'' Q''" and post = "[]"
      and options = "[''a'', ''b'']" and st = ?mt and prompt = "''Select an option:''"
      and sep = "''. ''", THEN conjunct2, THEN conjunct2, THEN conjunct1, THEN mp]
  have pm: "picker [''a'', ''b''] ''Select an option:'' ''. '' (NStr ''+'') True ?mt
      = (Inr QuitSignal,
         \<lparr>stdin = [''1''],
          trace = [Prompt (menu [''a'', ''b''] ''Select an option:'' ''. '' (NStr ''+'') True)]\<rparr>)"
  proof -
    have "[''a'', ''b''] \<noteq> [] \<and> stdin ?mt = ''2 , Q'' # [''1'']
        \<and> (multioption (NStr ''+'') \<and> ''2 , Q'' = ''2 ,'' @ '' Q'' @ [] \<and> CHR '','' \<notin> set '' Q''
              \<and> (''2 ,'' = [] \<or> last ''2 ,'' = CHR '','') \<and> ([] = [] \<or> hd [] = CHR '','')
              \<and> lower (strip '' Q'') = ''q''
            \<or> \<not> multioption (NStr ''+'') \<and> lower (strip ''2 , Q'') = ''q'')"
      using m1 m2 m3 m4 m5 by simp
    then have "picker [''a'', ''b''] ''Select an option:'' ''. '' (NStr ''+'') True ?mt
      = (Inr QuitSignal,
         \<lparr>stdin = [''1''],
          trace = trace ?mt @ [Prompt (menu [''a'', ''b''] ''Select an option:'' ''. '' (NStr ''+'') True)]\<rparr>)"
      by (rule qm)
    then show ?thesis by simp
  qed
  note q3 = picker_quit [where line = "'' Q ''" and rest = "[''1'']" and na = "NInt 1"
      and options = "[''3.10.0'', ''3.9.1'']" and st = ?st and prompt = "''Pick python version: ''"
      and sep = "''. ''" and pre = "[]" and tok = "[]" and post = "[]",
      THEN conjunct2, THEN conjunct2, THEN conjunct1, THEN mp]
  have p: "picker [''3.10.0'', ''3.9.1''] ''Pick python version: '' ''. '' (NInt 1) True ?st
      = (Inr QuitSignal, ?st')"
  proof -
    have "[''3.10.0'', ''3.9.1''] \<noteq> [] \<and> stdin ?st = '' Q '' # [''1'']
        \<and> (multioption (NInt 1) \<and> '' Q '' = [] @ [] @ [] \<and> CHR '','' \<notin> set []
              \<and> ([] = [] \<or> last [] = CHR '','') \<and> ([] = [] \<or> hd [] = CHR '','')
              \<and> lower (strip []) = ''q''
            \<or> \<not> multioption (NInt 1) \<and> lower (strip '' Q '') = ''q'')"
      using s1 s2 by simp
    then have "picker [''3.10.0'', ''3.9.1''] ''Pick python version: '' ''. '' (NInt 1) True ?st
      = (Inr QuitSignal,
         \<lparr>stdin = [''1''],
          trace = trace ?st @ [Prompt (menu [''3.10.0'', ''3.9.1''] ''Pick python version: '' ''. '' (NInt 1) True)]\<rparr>)"
      by (rule q3)
    then show ?thesis by simp
  qed
  note q4 = picker_quit [where ns = ?ns and w = example_world
      and versions = "[''3.10.0'', ''3.9.1'']" and st = ?st and st' = ?st',
      THEN conjunct2, THEN conjunct2, THEN conjunct2, THEN mp]
  have "ns_pick ?ns \<and> filter_versions example_world (ns_py_version ?ns) = Inr [''3.10.0'', ''3.9.1'']
        \<and> picker [''3.10.0'', ''3.9.1''] ''Pick python version: '' ''. '' (NInt 1) True ?st
            = (Inr QuitSignal, ?st')"
    using h3 p by simp
  then have m: "main example_world ?ns ?st = (Inl (SystemExit 0), ?st') \<and> runs ?st' = runs ?st"
    by (rule q4)
  have r: "runs ?st' = []"
    by (simp add: runs_def)
  show ?thesis
    using m1 m2 m3 m4 m5 s1 s2 h3 pm p m r by blast
qed

text \<open>
  C10. A picker without options raises \<^verbatim>\<open>ValueError\<close> at \<^verbatim>\<open>max(opt_dict)\<close>: nothing is
  read and nothing is printed, the state is unchanged. So the interactive choice of
  requirements files fails in a tree that has none to collect, and with a bare \<^verbatim>\<open>-r\<close>
  the program ends with that error once the version is resolved, with or without
  \<^verbatim>\<open>--pick\<close>.
\<close>

theorem picker_empty_options:
  "picker [] prompt sep na allow_quit st = (Inl ValueError, st)
   \<and> (collect_requirements (cwd w) (tree w) = []
        \<longrightarrow> pick_requirements w st = (Inl ValueError, st))
   \<and> (ns_requirements ns = Some [None] \<and> \<not> ns_pick ns
        \<and> filter_versions w (ns_py_version ns) = Inr (v # vs)
        \<and> collect_requirements (cwd w) (tree w) = []
        \<longrightarrow> main w ns st = (Inl ValueError, st))
   \<and> (ns_requirements ns = Some [None] \<and> ns_pick ns
        \<and> filter_versions w (ns_py_version ns) = Inr versions
        \<and> picker versions ''Pick python version: '' ''. '' (NInt 1) True st = (Inr (One v), st1)
        \<and> collect_requirements (cwd w) (tree w) = []
        \<longrightarrow> main w ns st = (Inl ValueError, st1))"
  by (simp add: main_def from_parsed_def pick_requirements_def pick_versions_def picker_def
        first_elem_def)

theorem picker_empty_options_witness:
  "collect_requirements (cwd example_world) (tree example_world) = []
   \<and> pick_requirements example_world \<lparr>stdin = [''1''], trace = []\<rparr>
      = (Inl ValueError, \<lparr>stdin = [''1''], trace = []\<rparr>)
   \<and> filter_versions example_world ''3'' = Inr [''3.10.0'', ''3.9.1'']
   \<and> main example_world
        \<lparr>ns_py_version = ''3'', ns_pick = False, ns_name = ''env'', ns_requirements = Some [None]\<rparr>
        \<lparr>stdin = [''1''], trace = []\<rparr>
      = (Inl ValueError, \<lparr>stdin = [''1''], trace = []\<rparr>)"
proof -
  let ?st = "\<lparr>stdin = [''1''], trace = []\<rparr>"
  let ?ns = "\<lparr>ns_py_version = ''3'', ns_pick = False, ns_name = ''env'', ns_requirements = Some [None]\<rparr>"
  have h1: "collect_requirements (cwd example_world) (tree example_world) = []"
    by code_simp
  have h2: "filter_versions example_world (ns_py_version ?ns) = Inr (''3.10.0'' # [''3.9.1''])"
    by code_simp
  show ?thesis
    using h1 h2
      picker_empty_options [where w = example_world and st = ?st and ns = ?ns
        and v = "''3.10.0''" and vs = "[''3.9.1'']"]
    by simp
qed

text \<open>
  In multi-option mode the loop over the tokens converts the whole response each time, and
  a response with a comma is never an integer: every response of two or more tokens is
  rejected with the diagnostic for a non-integer.
\<close>

lemma digitpart_chars: "digitpart b \<Longrightarrow> c \<in> set b \<Longrightarrow> is_digit c \<or> c = CHR ''_''"
  by (induction b rule: digitpart.induct) (auto split: if_splits)

lemma py_int_comma:
  assumes "CHR '','' \<in> set s"
  shows "py_int s = Inl ValueError"
proof -
  have sp: "\<not> is_space CHR '',''" and dg: "\<not> is_digit CHR '',''"
    by (simp_all add: is_space_def is_digit_def)
  have t: "CHR '','' \<in> set (strip s)"
    using assms sp by (rule in_strip)
  have "\<not> digitpart b" if "CHR '','' \<in> set b" for b
    using digitpart_chars [of b "CHR '',''"] that dg by auto
  moreover have "CHR '','' \<in> set (tl (strip s))" if "hd (strip s) = CHR ''-'' \<or> hd (strip s) = CHR ''+''"
    using t that by (cases "strip s") auto
  ultimately show ?thesis
    using t by (auto simp: py_int_def Let_def split: list.splits)
qed

lemma split_comma_tokens: "length (split_comma s) = Suc (length (filter (\<lambda>c. c = CHR '','') s))"
  by (induction s) (auto split: list.splits)

lemma multi_token_rejected:
  assumes "multioption na" and "1 < length (responses_of na (strip line))"
    and "\<not> (allow_quit \<and> ''q'' \<in> set (map lower (responses_of na (strip line))))"
  shows "picker_loop od s na allow_quit (line # rest) tr
         = picker_loop od s na allow_quit rest
             (tr @ [Prompt s, Print (''Response '' @ [CHR 0x27] @ strip line @ [CHR 0x27]
                                     @ '' is not a valid command or integer'')])"
proof -
  have "filter (\<lambda>c. c = CHR '','') (strip line) \<noteq> []"
    using assms(1,2) by (auto simp: responses_of_def split_comma_tokens)
  then have c: "CHR '','' \<in> set (strip line)"
    by (auto simp: filter_empty_conv)
  then have e: "strip line \<noteq> []" by auto
  obtain r rs where r: "responses_of na (strip line) = r # rs"
    using assms(2) by (cases "responses_of na (strip line)") auto
  have "select_all od (strip line) (responses_of na (strip line)) []
        = Inl (''Response '' @ [CHR 0x27] @ strip line @ [CHR 0x27]
               @ '' is not a valid command or integer'')"
    unfolding r by (simp add: py_int_comma [OF c])
  then show ?thesis
    using e assms(3) by (auto simp: Let_def)
qed

text \<open>
  C1, at a concrete input. With options \<^verbatim>\<open>a.txt\<close> and \<^verbatim>\<open>b.txt\<close> and \<^verbatim>\<open>nargs="*"\<close>, the
  response \<^verbatim>\<open>1,2\<close> is rejected as not an integer and the prompt is shown again (here the
  input then ends); the claim asks for the two options in the order of the tokens. A
  response of one token, \<^verbatim>\<open>2\<close>, is accepted and gives the list of the second option.
\<close>

theorem picker_multi_token_eval:
  "picker [''a.txt'', ''b.txt''] ''Select which requirements to install: '' ''. '' (NStr ''*'') False
     \<lparr>stdin = [''1,2''], trace = []\<rparr>
   = (Inl EOFError,
      \<lparr>stdin = [],
       trace = [Prompt (menu [''a.txt'', ''b.txt''] ''Select which requirements to install: '' ''. '' (NStr ''*'') False),
                Print (''Response '' @ [CHR 0x27] @ ''1,2'' @ [CHR 0x27] @ '' is not a valid command or integer''),
                Prompt (menu [''a.txt'', ''b.txt''] ''Select which requirements to install: '' ''. '' (NStr ''*'') False)]\<rparr>)
   \<and> picker [''a.txt'', ''b.txt''] ''Select which requirements to install: '' ''. '' (NStr ''*'') False
     \<lparr>stdin = [''2''], trace = []\<rparr>
   = (Inr (Many [''b.txt'']),
      \<lparr>stdin = [],
       trace = [Prompt (menu [''a.txt'', ''b.txt''] ''Select which requirements to install: '' ''. '' (NStr ''*'') False)]\<rparr>)"
  by code_simp

subsection \<open>Argument resolution\<close>

text \<open>
  C8. When the version filter yields no candidate, resolving the arguments fails and so
  does the program, before any external command: with \<^verbatim>\<open>IndexError\<close> from
  \<^verbatim>\<open>matching_versions[0]\<close> without \<^verbatim>\<open>--pick\<close>, with \<^verbatim>\<open>ValueError\<close> from the picker with
  it. The state is unchanged in both cases.
\<close>

theorem no_candidates_fatal:
  assumes "filter_versions w (ns_py_version ns) = Inr []"
  shows "from_parsed w ns st = (Inl (if ns_pick ns then ValueError else IndexError), st)
     \<and> main w ns st = (Inl (if ns_pick ns then ValueError else IndexError), st)"
  using assms
  by (simp add: main_def from_parsed_def pick_versions_def picker_def first_elem_def)

theorem no_candidates_fatal_witness:
  "filter_versions example_world ''4'' = Inr []
   \<and> main example_world
        \<lparr>ns_py_version = ''4'', ns_pick = False, ns_name = ''env'', ns_requirements = None\<rparr>
        \<lparr>stdin = [''1''], trace = []\<rparr>
      = (Inl IndexError, \<lparr>stdin = [''1''], trace = []\<rparr>)
   \<and> main example_world
        \<lparr>ns_py_version = ''4'', ns_pick = True, ns_name = ''env'', ns_requirements = None\<rparr>
        \<lparr>stdin = [''1''], trace = []\<rparr>
      = (Inl ValueError, \<lparr>stdin = [''1''], trace = []\<rparr>)"
proof -
  have h: "filter_versions example_world ''4'' = Inr []"
    by code_simp
  show ?thesis
    using h
      no_candidates_fatal [where w = example_world and st = "\<lparr>stdin = [''1''], trace = []\<rparr>"
        and ns = "\<lparr>ns_py_version = ''4'', ns_pick = False, ns_name = ''env'', ns_requirements = None\<rparr>"]
      no_candidates_fatal [where w = example_world and st = "\<lparr>stdin = [''1''], trace = []\<rparr>"
        and ns = "\<lparr>ns_py_version = ''4'', ns_pick = True, ns_name = ''env'', ns_requirements = None\<rparr>"]
    by simp
qed

subsection \<open>VersionFilter\<close>

lemma yield_matching_filter: "yield_matching test vs = filter test vs"
  by (induction vs) auto

lemma startswith_prefix: "startswith s p \<longleftrightarrow> prefix p s"
  by (induction s p rule: startswith.induct) auto

text \<open>
  C6. Let \<open>versions\<close> be the sorted list of installed versions. If the filter string starts
  with \<^verbatim>\<open>/\<close> and the rest compiles, \<open>filter_versions\<close> yields the versions in which the
  compiled pattern finds a match; otherwise it yields the versions of which the filter
  string is a prefix. Either way the result keeps the order of \<open>versions\<close> (it is a
  subsequence), and the empty filter string yields \<open>versions\<close> itself. A pattern that does
  not compile raises the compiler's error.
\<close>

theorem filter_versions_subsequence:
  assumes "get_pyenv_versions w = Inr versions"
  shows "(startswith filter_str ''/'' \<and> re_compile w (tl filter_str) = Some search
           \<longrightarrow> filter_versions w filter_str = Inr (filter search versions))
     \<and> (startswith filter_str ''/'' \<and> re_compile w (tl filter_str) = None
           \<longrightarrow> filter_versions w filter_str = Inl RegexError)
     \<and> (\<not> startswith filter_str ''/''
           \<longrightarrow> filter_versions w filter_str = Inr (filter (prefix filter_str) versions))
     \<and> (\<forall>out. filter_versions w filter_str = Inr out \<longrightarrow> subseq out versions)
     \<and> filter_versions w [] = Inr versions"
  using assms
  by (auto simp: filter_versions_def yield_matching_filter startswith_prefix [abs_def]
           split: option.splits)

theorem filter_versions_subsequence_witness:
  "get_pyenv_versions example_world = Inr [''3.10.0'', ''3.9.1'']
   \<and> startswith ''/^3[.]1'' ''/''
   \<and> filter_versions example_world ''/^3[.]1'' = Inr [''3.10.0'']
   \<and> \<not> startswith ''3.9'' ''/''
   \<and> filter_versions example_world ''3.9'' = Inr [''3.9.1'']
   \<and> subseq [''3.9.1''] [''3.10.0'', ''3.9.1'']
   \<and> filter_versions example_world [] = Inr [''3.10.0'', ''3.9.1'']"
proof -
  have g: "get_pyenv_versions example_world = Inr [''3.10.0'', ''3.9.1'']"
    by code_simp
  have r: "re_compile example_world (tl ''/^3[.]1'') = Some (\<lambda>v. startswith v ''3.1'')"
    by (simp add: example_world_def)
  have s: "startswith ''/^3[.]1'' ''/''" "\<not> startswith ''3.9'' ''/''"
    by simp_all
  note t = filter_versions_subsequence [OF g]
  have 1: "filter_versions example_world ''/^3[.]1'' = Inr [''3.10.0'']"
    using t [of "''/^3[.]1''" "\<lambda>v. startswith v ''3.1''"] r s by simp
  have 2: "filter_versions example_world ''3.9'' = Inr [''3.9.1'']"
    using t [of "''3.9''"] s by simp
  have 3: "subseq [''3.9.1''] [''3.10.0'', ''3.9.1'']"
    using t [of "''3.9''"] 2 by simp
  have 4: "filter_versions example_world [] = Inr [''3.10.0'', ''3.9.1'']"
    using t [of "[]"] by simp
  show ?thesis
    using g s 1 2 3 4 by simp
qed

subsection \<open>RequirementsLocator\<close>

lemma collect_requirements_sound:
  "p \<in> set (collect_requirements root d) \<Longrightarrow> req_file root d p"
proof (induction root d arbitrary: p rule: collect_requirements.induct)
  case (1 root dnames fnames)
  from "1.prems" consider
    (files) f where "f \<in> set fnames" "is_requirements f" "p = joinpath root f"
    | (dirs) n sub where "(n, sub) \<in> set dnames" "\<not> startswith n ''.''"
        "p \<in> set (collect_requirements (joinpath root n) sub)"
    by auto
  then show ?case
  proof cases
    case files
    then show ?thesis by (auto intro: req_file.here)
  next
    case dirs
    then have "req_file (joinpath root n) sub p"
      by (intro "1.IH" [of "(n, sub)"]) auto
    with dirs show ?thesis by (auto intro: req_file.below)
  qed
qed

lemma collect_requirements_complete:
  "req_file root d p \<Longrightarrow> p \<in> set (collect_requirements root d)"
proof (induction rule: req_file.induct)
  case (here f fnames root dnames)
  then show ?case by simp
next
  case (below d sub dnames root p fnames)
  then show ?case by force
qed

lemma filter_sort_strings: "filter P (sort (xs :: string list)) = sort (filter P xs)"
  by (simp add: filter_sort)

lemma concat_map_concat:
  "concat (map g (concat (map f xs))) = concat (map (\<lambda>x. concat (map g (f x))) xs)"
  by (induction xs) auto

lemma collect_requirements_visited:
  "collect_requirements root d
   = concat (map (\<lambda>(r, fnames). map (joinpath r) (sort (filter is_requirements fnames)))
                 (visited root d))"
proof (induction root d rule: collect_requirements.induct)
  case (1 root dnames fnames)
  let ?g = "\<lambda>(r, fnames). map (joinpath r) (sort (filter is_requirements fnames))"
  let ?sel = "filter (\<lambda>(d, sub). \<not> startswith d ''.'') dnames"
  have a: "collect_requirements (joinpath root n) sub
           = concat (map ?g (visited (joinpath root n) sub))" if "(n, sub) \<in> set ?sel" for n sub
    using that by (intro "1.IH" [of "(n, sub)"]) auto
  have b: "map (\<lambda>(n, sub). collect_requirements (joinpath root n) sub) ?sel
           = map (\<lambda>(n, sub). concat (map ?g (visited (joinpath root n) sub))) ?sel"
    by (rule map_cong [OF refl]) (use a in auto)
  have c: "concat (map ?g (concat (map (\<lambda>(n, sub). visited (joinpath root n) sub) ?sel)))
           = concat (map (\<lambda>(n, sub). concat (map ?g (visited (joinpath root n) sub))) ?sel)"
    by (simp add: concat_map_concat split_def)
  have "collect_requirements root (Dir dnames fnames)
        = map (joinpath root) (sort (filter is_requirements fnames))
          @ concat (map (\<lambda>(n, sub). collect_requirements (joinpath root n) sub) ?sel)"
    by (simp add: filter_sort_strings)
  also have "\<dots> = map (joinpath root) (sort (filter is_requirements fnames))
          @ concat (map ?g (concat (map (\<lambda>(n, sub). visited (joinpath root n) sub) ?sel)))"
    by (simp only: b c)
  also have "\<dots> = concat (map ?g (visited root (Dir dnames fnames)))"
    by simp
  finally show ?case .
qed

text \<open>
  C9. The paths collected are exactly the paths of the files whose name starts with
  \<^verbatim>\<open>requirements\<close> and ends with \<^verbatim>\<open>.txt\<close> and that are reached from the root without
  entering a subdirectory whose name starts with a dot (\<open>req_file\<close>); and the list is the
  concatenation, over the directories entered in the order of the walk, of the matching
  file names of the directory in sorted order, each joined to the directory's path.
\<close>

theorem collect_requirements_exact:
  "(p \<in> set (collect_requirements root d) \<longleftrightarrow> req_file root d p)
   \<and> collect_requirements root d
       = concat (map (\<lambda>(r, fnames). map (joinpath r) (sort (filter is_requirements fnames)))
                     (visited root d))"
  using collect_requirements_sound collect_requirements_complete collect_requirements_visited
  by blast

theorem collect_requirements_exact_witness:
  "req_file ''/w'' (Dir [(''.git'', Dir [] [''requirements.txt'']),
                        (''sub'', Dir [] [''requirements-b.txt'', ''a.txt'', ''requirements-a.txt''])]
                       [''requirements.txt'', ''requirements-dev.txt'', ''README''])
            ''/w/sub/requirements-a.txt''
   \<and> collect_requirements ''/w''
        (Dir [(''.git'', Dir [] [''requirements.txt'']),
              (''sub'', Dir [] [''requirements-b.txt'', ''a.txt'', ''requirements-a.txt''])]
             [''requirements.txt'', ''requirements-dev.txt'', ''README''])
      = [''/w/requirements-dev.txt'', ''/w/requirements.txt'',
         ''/w/sub/requirements-a.txt'', ''/w/sub/requirements-b.txt'']"
proof -
  let ?d = "Dir [(''.git'', Dir [] [''requirements.txt'']),
              (''sub'', Dir [] [''requirements-b.txt'', ''a.txt'', ''requirements-a.txt''])]
             [''requirements.txt'', ''requirements-dev.txt'', ''README'']"
  have e: "collect_requirements ''/w'' ?d
      = [''/w/requirements-dev.txt'', ''/w/requirements.txt'',
         ''/w/sub/requirements-a.txt'', ''/w/sub/requirements-b.txt'']"
    by code_simp
  have m: "''/w/sub/requirements-a.txt'' \<in> set (collect_requirements ''/w'' ?d)"
    unfolding e by simp
  have "req_file ''/w'' ?d ''/w/sub/requirements-a.txt''"
    using collect_requirements_exact [of "''/w/sub/requirements-a.txt''" "''/w''" ?d] m by blast
  then show ?thesis
    using e by blast
qed

subsection \<open>EnvironmentCreator\<close>

lemma history_emit [simp]:
  "history (emit (Run argv) st) = history st @ [argv]"
  "history (emit (Print x) st) = history st"
  "history (emit (Warn x) st) = history st"
  "history (emit (Prompt x) st) = history st"
  by (simp_all add: history_def emit_def)

lemma warnings_emit [simp]:
  "warnings (emit (Warn x) st) = warnings st @ [x]"
  "warnings (emit (Print x) st) = warnings st"
  "warnings (emit (Run argv) st) = warnings st"
  "warnings (emit (Prompt x) st) = warnings st"
  by (simp_all add: warnings_def emit_def)

lemma splitlines_nonempty: "splitlines (c # cs) \<noteq> []"
  by (cases cs) (auto split: list.splits)

lemma concat_splitlines: "concat (splitlines t) = t"
proof (induction t rule: splitlines.induct)
  case (3 c d cs)
  obtain l ls where l: "splitlines (d # cs) = l # ls"
    using splitlines_nonempty [of d cs] by (cases "splitlines (d # cs)") auto
  show ?case
    using 3 l by (auto split: if_splits)
qed simp_all

lemma subseq_indent_lines:
  "subseq (concat ls) (concat (map (\<lambda>line. if P line then pre @ line else line) ls))"
proof (induction ls)
  case Nil
  then show ?case by simp
next
  case (Cons l ls)
  have "subseq l (if P l then pre @ l else l)"
    by (simp add: subseq_drop_many)
  then show ?case
    using Cons by (simp add: list_emb_append_mono)
qed

lemma subseq_indent: "subseq t (indent t pre)"
  using subseq_indent_lines [of "splitlines t" "\<lambda>line. strip line \<noteq> []" pre]
  by (simp add: indent_def concat_splitlines)

lemma creation_failed_carries: "subseq err (creation_failed code err)"
  unfolding creation_failed_def
  by (intro subseq_drop_many subseq_indent)

lemma install_failed_carries:
  "sublist req (install_failed code req err)" "subseq err (install_failed code req err)"
proof -
  have "install_failed code req err
        = (''Could not install requirements from (status code '' @ str_int code @ ''): '')
          @ req @ ([CHR 0x0A] @ indent err ''  '')"
    by (simp add: install_failed_def)
  then show "sublist req (install_failed code req err)"
    unfolding sublist_def by blast
  show "subseq err (install_failed code req err)"
    unfolding install_failed_def
    by (intro subseq_drop_many subseq_indent)
qed

text \<open>
  C2. If the first external command, \<^verbatim>\<open>pyenv virtualenv version name\<close>, returns a nonzero
  status, \<open>create_environment\<close> raises \<^verbatim>\<open>RuntimeError\<close> with the message built from the
  status and the captured standard error, which the message contains as a subsequence
  (indentation only inserts characters); and that command is the only one run.
\<close>

theorem creation_failure_aborts:
  assumes "returncode (run w (history st) [pyenv_path w, ''virtualenv'', version, nm]) \<noteq> 0"
  shows "\<exists>st'. create_environment w version nm requirements_files st
           = (Inl (RuntimeError
                (creation_failed
                   (returncode (run w (history st) [pyenv_path w, ''virtualenv'', version, nm]))
                   (stderr (run w (history st) [pyenv_path w, ''virtualenv'', version, nm])))),
              st')
         \<and> history st' = history st @ [[pyenv_path w, ''virtualenv'', version, nm]]
         \<and> subseq (stderr (run w (history st) [pyenv_path w, ''virtualenv'', version, nm]))
              (creation_failed
                 (returncode (run w (history st) [pyenv_path w, ''virtualenv'', version, nm]))
                 (stderr (run w (history st) [pyenv_path w, ''virtualenv'', version, nm])))"
  using assms
  by (simp add: create_environment_def sp_run_def Let_def creation_failed_carries)

theorem creation_failure_aborts_witness:
  "returncode (run example_world (history \<lparr>stdin = [], trace = []\<rparr>)
                 [pyenv_path example_world, ''virtualenv'', ''2.7.18'', ''env'']) = 1
   \<and> create_environment example_world ''2.7.18'' ''env'' (Some [Some ''good.txt''])
        \<lparr>stdin = [], trace = []\<rparr>
      = (Inl (RuntimeError (''Could not create pyenv environment (status code 1)'' @ [CHR 0x0A]
                            @ ''  boom'')),
         \<lparr>stdin = [],
          trace = [Print (''Creating environment called '' @ [CHR 0x27] @ ''env'' @ [CHR 0x27]
                          @ '' for python version '' @ [CHR 0x27] @ ''2.7.18'' @ [CHR 0x27] @ ''...''),
                   Run [''/p/bin/pyenv'', ''virtualenv'', ''2.7.18'', ''env'']]\<rparr>)"
proof -
  let ?st = "\<lparr>stdin = [], trace = []\<rparr>"
  have h: "returncode (run example_world (history ?st)
                 [pyenv_path example_world, ''virtualenv'', ''2.7.18'', ''env'']) = 1"
    by (simp add: example_world_def)
  then have n: "returncode (run example_world (history ?st)
                 [pyenv_path example_world, ''virtualenv'', ''2.7.18'', ''env'']) \<noteq> 0"
    by simp
  from creation_failure_aborts [OF n, of "Some [Some ''good.txt'']"]
  obtain st' where "create_environment example_world ''2.7.18'' ''env'' (Some [Some ''good.txt'']) ?st
           = (Inl (RuntimeError
                (creation_failed
                   (returncode (run example_world (history ?st) [pyenv_path example_world, ''virtualenv'', ''2.7.18'', ''env'']))
                   (stderr (run example_world (history ?st) [pyenv_path example_world, ''virtualenv'', ''2.7.18'', ''env''])))),
              st')"
    by blast
  have e: "create_environment example_world ''2.7.18'' ''env'' (Some [Some ''good.txt'']) ?st
      = (Inl (RuntimeError (''Could not create pyenv environment (status code 1)'' @ [CHR 0x0A]
                            @ ''  boom'')),
         \<lparr>stdin = [],
          trace = [Print (''Creating environment called '' @ [CHR 0x27] @ ''env'' @ [CHR 0x27]
                          @ '' for python version '' @ [CHR 0x27] @ ''2.7.18'' @ [CHR 0x27] @ ''...''),
                   Run [''/p/bin/pyenv'', ''virtualenv'', ''2.7.18'', ''env'']]\<rparr>)"
    by code_simp
  show ?thesis
    using h e by blast
qed

lemma install_warnings_Nil [simp]: "install_warnings w pip h [] = []"
  by (simp add: install_warnings_def)

lemma install_warnings_Cons:
  "install_warnings w pip h (r # rs)
   = (let c = run w h (install_cmd pip r)
      in if returncode c \<noteq> 0 then [install_failed (returncode c) r (stderr c)] else [])
     @ install_warnings w pip (h @ [install_cmd pip r]) rs"
proof -
  have "[0..<length (r # rs)] = 0 # map Suc [0..<length rs]"
    by (simp add: upt_conv_Cons map_Suc_upt del: upt_Suc)
  then show ?thesis
    by (simp add: install_warnings_def comp_def Let_def del: upt_Suc cong: if_cong)
qed

lemma install_all_paths:
  "fst (install_all w pip (map Some reqs) st) = Inr ()
   \<and> history (snd (install_all w pip (map Some reqs) st))
       = history st @ map (install_cmd pip) reqs
   \<and> warnings (snd (install_all w pip (map Some reqs) st))
       = warnings st @ install_warnings w pip (history st) reqs"
proof (induction reqs arbitrary: st)
  case Nil
  then show ?case by simp
next
  case (Cons r rs)
  show ?case
    by (simp add: Cons.IH sp_run_def Let_def install_warnings_Cons)
qed

text \<open>
  C3. When the first three commands return status zero, \<open>create_environment\<close> returns
  normally for every list of requirements paths; the commands run after the first three
  are the installs of all the paths, in order, whatever their status; and the warnings
  issued are those of the installs that returned a nonzero status, in order, each made of
  the status, the path and the captured standard error: the message has the path as a
  contiguous part and the standard error as a subsequence.
\<close>

theorem requirements_all_attempted:
  assumes "returncode (run w (history st) [pyenv_path w, ''virtualenv'', version, nm]) = 0"
    and "returncode (run w (history st @ [[pyenv_path w, ''virtualenv'', version, nm]])
                       [pyenv_path w, ''local'', nm]) = 0"
    and "returncode (run w (history st @ [[pyenv_path w, ''virtualenv'', version, nm],
                                          [pyenv_path w, ''local'', nm]])
                       [pip_path w nm, ''install'', ''-U'', ''pip'']) = 0"
  shows "\<exists>st'. create_environment w version nm (Some (map Some reqs)) st = (Inr (), st')
     \<and> history st'
         = history st
           @ [[pyenv_path w, ''virtualenv'', version, nm], [pyenv_path w, ''local'', nm],
              [pip_path w nm, ''install'', ''-U'', ''pip'']]
           @ map (install_cmd (pip_path w nm)) reqs
     \<and> warnings st'
         = warnings st
           @ install_warnings w (pip_path w nm)
               (history st
                @ [[pyenv_path w, ''virtualenv'', version, nm], [pyenv_path w, ''local'', nm],
                   [pip_path w nm, ''install'', ''-U'', ''pip'']])
               reqs
     \<and> (\<forall>code req err. sublist req (install_failed code req err)
                         \<and> subseq err (install_failed code req err))"
proof -
  let ?c1 = "[pyenv_path w, ''virtualenv'', version, nm]"
  let ?c2 = "[pyenv_path w, ''local'', nm]"
  let ?c3 = "[pip_path w nm, ''install'', ''-U'', ''pip'']"
  define st6 where
    "st6 = emit (Run ?c3) (emit (Print ''Updating pip...'') (emit (Run ?c2)
             (emit (Print ''Setting as local version...'') (emit (Run ?c1)
               (emit (Print (''Creating environment called '' @ [CHR 0x27] @ nm @ [CHR 0x27]
                             @ '' for python version '' @ [CHR 0x27] @ version @ [CHR 0x27]
                             @ ''...'')) st)))))"
  have h6: "history st6 = history st @ [?c1, ?c2, ?c3]" and w6: "warnings st6 = warnings st"
    by (simp_all add: st6_def)
  note ia = install_all_paths [of w "pip_path w nm" reqs st6]
  obtain r st7 where i: "install_all w (pip_path w nm) (map Some reqs) st6 = (r, st7)"
    by (cases "install_all w (pip_path w nm) (map Some reqs) st6")
  have r: "r = Inr ()" and h7: "history st7 = history st6 @ map (install_cmd (pip_path w nm)) reqs"
    and w7: "warnings st7 = warnings st6 @ install_warnings w (pip_path w nm) (history st6) reqs"
    using ia i by simp_all
  have "create_environment w version nm (Some (map Some reqs)) st
        = (Inr (), emit (Print ''Done!'') st7)"
    using assms i r
    by (simp add: create_environment_def sp_run_def Let_def st6_def)
  moreover have "history (emit (Print ''Done!'') st7)
        = history st @ [?c1, ?c2, ?c3] @ map (install_cmd (pip_path w nm)) reqs"
    by (simp add: h7 h6)
  moreover have "warnings (emit (Print ''Done!'') st7)
        = warnings st @ install_warnings w (pip_path w nm) (history st @ [?c1, ?c2, ?c3]) reqs"
    by (simp add: w7 w6 h6)
  ultimately show ?thesis
    using install_failed_carries by blast
qed

theorem requirements_all_attempted_witness:
  "returncode (run example_world (history \<lparr>stdin = [], trace = []\<rparr>)
                 [pyenv_path example_world, ''virtualenv'', ''3.9.1'', ''env'']) = 0
   \<and> returncode (run example_world
                   (history \<lparr>stdin = [], trace = []\<rparr>
                    @ [[pyenv_path example_world, ''virtualenv'', ''3.9.1'', ''env'']])
                   [pyenv_path example_world, ''local'', ''env'']) = 0
   \<and> returncode (run example_world
                   (history \<lparr>stdin = [], trace = []\<rparr>
                    @ [[pyenv_path example_world, ''virtualenv'', ''3.9.1'', ''env''],
                       [pyenv_path example_world, ''local'', ''env'']])
                   [pip_path example_world ''env'', ''install'', ''-U'', ''pip'']) = 0
   \<and> fst (create_environment example_world ''3.9.1'' ''env''
             (Some (map Some [''bad.txt'', ''good.txt''])) \<lparr>stdin = [], trace = []\<rparr>)
      = Inr ()
   \<and> history (snd (create_environment example_world ''3.9.1'' ''env''
             (Some (map Some [''bad.txt'', ''good.txt''])) \<lparr>stdin = [], trace = []\<rparr>))
      = [[''/p/bin/pyenv'', ''virtualenv'', ''3.9.1'', ''env''],
         [''/p/bin/pyenv'', ''local'', ''env''],
         [''/p/versions/env/bin/pip'', ''install'', ''-U'', ''pip''],
         [''/p/versions/env/bin/pip'', ''install'', ''-r'', ''bad.txt''],
         [''/p/versions/env/bin/pip'', ''install'', ''-r'', ''good.txt'']]
   \<and> warnings (snd (create_environment example_world ''3.9.1'' ''env''
             (Some (map Some [''bad.txt'', ''good.txt''])) \<lparr>stdin = [], trace = []\<rparr>))
      = [''Could not install requirements from (status code 1): bad.txt'' @ [CHR 0x0A] @ ''  boom'']"
proof -
  let ?st = "\<lparr>stdin = [], trace = []\<rparr>"
  have h1: "returncode (run example_world (history ?st)
                 [pyenv_path example_world, ''virtualenv'', ''3.9.1'', ''env'']) = 0"
    by code_simp
  have h2: "returncode (run example_world
                   (history ?st @ [[pyenv_path example_world, ''virtualenv'', ''3.9.1'', ''env'']])
                   [pyenv_path example_world, ''local'', ''env'']) = 0"
    by code_simp
  have h3: "returncode (run example_world
                   (history ?st
                    @ [[pyenv_path example_world, ''virtualenv'', ''3.9.1'', ''env''],
                       [pyenv_path example_world, ''local'', ''env'']])
                   [pip_path example_world ''env'', ''install'', ''-U'', ''pip'']) = 0"
    by code_simp
  from requirements_all_attempted [OF h1 h2 h3, of "[''bad.txt'', ''good.txt'']"]
  obtain st' where c: "create_environment example_world ''3.9.1'' ''env''
             (Some (map Some [''bad.txt'', ''good.txt''])) ?st = (Inr (), st')"
    by blast
  have e1: "fst (create_environment example_world ''3.9.1'' ''env''
             (Some (map Some [''bad.txt'', ''good.txt''])) ?st) = Inr ()"
    using c by simp
  have e2: "history (snd (create_environment example_world ''3.9.1'' ''env''
             (Some (map Some [''bad.txt'', ''good.txt''])) ?st))
      = [[''/p/bin/pyenv'', ''virtualenv'', ''3.9.1'', ''env''],
         [''/p/bin/pyenv'', ''local'', ''env''],
         [''/p/versions/env/bin/pip'', ''install'', ''-U'', ''pip''],
         [''/p/versions/env/bin/pip'', ''install'', ''-r'', ''bad.txt''],
         [''/p/versions/env/bin/pip'', ''install'', ''-r'', ''good.txt'']]"
    by code_simp
  have e3: "warnings (snd (create_environment example_world ''3.9.1'' ''env''
             (Some (map Some [''bad.txt'', ''good.txt''])) ?st))
      = [''Could not install requirements from (status code 1): bad.txt'' @ [CHR 0x0A] @ ''  boom'']"
    by code_simp
  show ?thesis
    using h1 h2 h3 e1 e2 e3 by blast
qed

end
